theory Spec2Isabelle
  imports
    Complex_Main
    "HOL-Library.Word"
    "HOL-Library.Multiset"
    "HOL-Library.List_Lexorder"
    "HOL-Library.Product_Lexorder"
    "HOL-Library.AList"
    "HOL-Library.Log_Nat"
begin

unbundle bit_operations_syntax

section \<open>JavaScript strings\<close>

text \<open>
  A JavaScript string is a sequence of 16-bit code units. The handlers in
  \<^verbatim>\<open>app/routes/orders.jsx\<close> and \<^verbatim>\<open>app/routes/proxy.$.jsx\<close> test strings for
  emptiness, concatenate them, split them and search them; all of this is defined on code
  units. \<open>js\<close> writes an ASCII literal as such a string.
\<close>

type_synonym code_unit = "16 word"
type_synonym jsstring = "code_unit list"
type_synonym byte = "8 word"

definition js :: "string \<Rightarrow> jsstring" where
  "js s = map of_char s"

text \<open>\<^verbatim>\<open>s.startsWith(t)\<close> and \<^verbatim>\<open>s.includes(t)\<close>.\<close>

fun startsWith :: "jsstring \<Rightarrow> jsstring \<Rightarrow> bool" where
  "startsWith s [] = True"
| "startsWith [] (c # t) = False"
| "startsWith (d # s) (c # t) = (d = c \<and> startsWith s t)"

fun includes_str :: "jsstring \<Rightarrow> jsstring \<Rightarrow> bool" where
  "includes_str [] t = (t = [])"
| "includes_str (c # s) t = (startsWith (c # s) t \<or> includes_str s t)"

text \<open>
  \<^verbatim>\<open>s.split(sep)\<close> for a separator of one code unit: one more piece than there are
  separators, so the empty string splits into one empty piece.
\<close>

fun split_at :: "code_unit \<Rightarrow> jsstring \<Rightarrow> jsstring list" where
  "split_at sep [] = [[]]"
| "split_at sep (c # s) =
     (if c = sep then [] # split_at sep s
      else (case split_at sep s of [] \<Rightarrow> [[c]] | piece # pieces \<Rightarrow> (c # piece) # pieces))"

text \<open>\<^verbatim>\<open>pieces.join(sep)\<close> on an array of strings.\<close>

fun join :: "jsstring \<Rightarrow> jsstring list \<Rightarrow> jsstring" where
  "join sep [] = []"
| "join sep [p] = p"
| "join sep (p # q # ps) = p @ sep @ join sep (q # ps)"

section \<open>HMAC-SHA256 as \<^verbatim>\<open>crypto.createHmac\<close> computes it\<close>

text \<open>
  \<^verbatim>\<open>crypto.createHmac("sha256", key).update(text).digest("hex")\<close> encodes key and text
  as UTF-8, computes HMAC (RFC 2104) over SHA-256 (FIPS 180-4) and renders the 32 bytes
  as 64 lower-case hexadecimal digits.
\<close>

subsection \<open>UTF-8 encoding of a string\<close>

definition is_high_surrogate :: "code_unit \<Rightarrow> bool" where
  "is_high_surrogate c = (0xD800 \<le> c \<and> c \<le> 0xDBFF)"

definition is_low_surrogate :: "code_unit \<Rightarrow> bool" where
  "is_low_surrogate c = (0xDC00 \<le> c \<and> c \<le> 0xDFFF)"

definition utf8_code_point :: "32 word \<Rightarrow> byte list" where
  "utf8_code_point c =
     (if c < 0x80 then [ucast c]
      else if c < 0x800 then
        [0xC0 OR ucast (drop_bit 6 c), 0x80 OR (ucast c AND 0x3F)]
      else if c < 0x10000 then
        [0xE0 OR ucast (drop_bit 12 c), 0x80 OR (ucast (drop_bit 6 c) AND 0x3F),
         0x80 OR (ucast c AND 0x3F)]
      else
        [0xF0 OR ucast (drop_bit 18 c), 0x80 OR (ucast (drop_bit 12 c) AND 0x3F),
         0x80 OR (ucast (drop_bit 6 c) AND 0x3F), 0x80 OR (ucast c AND 0x3F)])"

text \<open>A surrogate pair is one code point; a lone surrogate is encoded as U+FFFD.\<close>

fun utf8_encode :: "jsstring \<Rightarrow> byte list" where
  "utf8_encode [] = []"
| "utf8_encode [c] =
     (if is_high_surrogate c \<or> is_low_surrogate c then [0xEF, 0xBF, 0xBD]
      else utf8_code_point (ucast c))"
| "utf8_encode (c # d # s) =
     (if is_high_surrogate c \<and> is_low_surrogate d then
        utf8_code_point (0x10000 + push_bit 10 (ucast c - 0xD800) + (ucast d - 0xDC00))
          @ utf8_encode s
      else if is_high_surrogate c \<or> is_low_surrogate c then
        [0xEF, 0xBF, 0xBD] @ utf8_encode (d # s)
      else utf8_code_point (ucast c) @ utf8_encode (d # s))"

subsection \<open>SHA-256\<close>

type_synonym word32 = "32 word"
type_synonym hash_state =
  "word32 \<times> word32 \<times> word32 \<times> word32 \<times> word32 \<times> word32 \<times> word32 \<times> word32"

definition rotr :: "nat \<Rightarrow> word32 \<Rightarrow> word32" where
  "rotr n x = drop_bit n x OR push_bit (32 - n) x"

definition Ch :: "word32 \<Rightarrow> word32 \<Rightarrow> word32 \<Rightarrow> word32" where
  "Ch x y z = (x AND y) XOR (NOT x AND z)"

definition Maj :: "word32 \<Rightarrow> word32 \<Rightarrow> word32 \<Rightarrow> word32" where
  "Maj x y z = (x AND y) XOR (x AND z) XOR (y AND z)"

definition Sigma0 :: "word32 \<Rightarrow> word32" where
  "Sigma0 x = rotr 2 x XOR rotr 13 x XOR rotr 22 x"

definition Sigma1 :: "word32 \<Rightarrow> word32" where
  "Sigma1 x = rotr 6 x XOR rotr 11 x XOR rotr 25 x"

definition sigma0 :: "word32 \<Rightarrow> word32" where
  "sigma0 x = rotr 7 x XOR rotr 18 x XOR drop_bit 3 x"

definition sigma1 :: "word32 \<Rightarrow> word32" where
  "sigma1 x = rotr 17 x XOR rotr 19 x XOR drop_bit 10 x"

definition K256 :: "word32 list" where
  "K256 = [
     0x428A2F98, 0x71374491, 0xB5C0FBCF, 0xE9B5DBA5, 0x3956C25B, 0x59F111F1, 0x923F82A4,
     0xAB1C5ED5, 0xD807AA98, 0x12835B01, 0x243185BE, 0x550C7DC3, 0x72BE5D74, 0x80DEB1FE,
     0x9BDC06A7, 0xC19BF174, 0xE49B69C1, 0xEFBE4786, 0x0FC19DC6, 0x240CA1CC, 0x2DE92C6F,
     0x4A7484AA, 0x5CB0A9DC, 0x76F988DA, 0x983E5152, 0xA831C66D, 0xB00327C8, 0xBF597FC7,
     0xC6E00BF3, 0xD5A79147, 0x06CA6351, 0x14292967, 0x27B70A85, 0x2E1B2138, 0x4D2C6DFC,
     0x53380D13, 0x650A7354, 0x766A0ABB, 0x81C2C92E, 0x92722C85, 0xA2BFE8A1, 0xA81A664B,
     0xC24B8B70, 0xC76C51A3, 0xD192E819, 0xD6990624, 0xF40E3585, 0x106AA070, 0x19A4C116,
     0x1E376C08, 0x2748774C, 0x34B0BCB5, 0x391C0CB3, 0x4ED8AA4A, 0x5B9CCA4F, 0x682E6FF3,
     0x748F82EE, 0x78A5636F, 0x84C87814, 0x8CC70208, 0x90BEFFFA, 0xA4506CEB, 0xBEF9A3F7,
     0xC67178F2]"

definition H256 :: hash_state where
  "H256 = (0x6A09E667, 0xBB67AE85, 0x3C6EF372, 0xA54FF53A,
           0x510E527F, 0x9B05688C, 0x1F83D9AB, 0x5BE0CD19)"

fun round1 :: "word32 \<Rightarrow> word32 \<Rightarrow> hash_state \<Rightarrow> hash_state" where
  "round1 k w (a, b, c, d, e, f, g, h) =
     (let t1 = h + Sigma1 e + Ch e f g + k + w;
          t2 = Sigma0 a + Maj a b c
      in (t1 + t2, a, b, c, d + t1, e, f, g))"

text \<open>
  The 64 rounds of one block. \<open>ws\<close> holds the sixteen most recent words of the message
  schedule, the current one first; it starts as the sixteen words of the block.
\<close>

primrec rounds :: "word32 list \<Rightarrow> word32 list \<Rightarrow> hash_state \<Rightarrow> hash_state" where
  "rounds [] ws st = st"
| "rounds (k # ks) ws st =
     rounds ks (tl ws @ [sigma1 (ws ! 14) + ws ! 9 + sigma0 (ws ! 1) + ws ! 0])
       (round1 k (ws ! 0) st)"

fun be32 :: "byte list \<Rightarrow> word32 list" where
  "be32 (b0 # b1 # b2 # b3 # bs) =
     (push_bit 24 (ucast b0) OR push_bit 16 (ucast b1) OR push_bit 8 (ucast b2) OR ucast b3)
       # be32 bs"
| "be32 bs = []"

fun add_state :: "hash_state \<Rightarrow> hash_state \<Rightarrow> hash_state" where
  "add_state (a, b, c, d, e, f, g, h) (a', b', c', d', e', f', g', h') =
     (a + a', b + b', c + c', d + d', e + e', f + f', g + g', h + h')"

definition compress :: "hash_state \<Rightarrow> byte list \<Rightarrow> hash_state" where
  "compress st block = add_state st (rounds K256 (be32 block) st)"

definition length_bytes :: "64 word \<Rightarrow> byte list" where
  "length_bytes x = map (\<lambda>i. ucast (drop_bit (8 * i) x)) [7, 6, 5, 4, 3, 2, 1, 0]"

definition pad :: "byte list \<Rightarrow> byte list" where
  "pad m = m @ [0x80] @ replicate ((119 - length m mod 64) mod 64) 0
             @ length_bytes (8 * of_nat (length m))"

function blocks :: "hash_state \<Rightarrow> byte list \<Rightarrow> hash_state" where
  "blocks st bs =
     (if length bs < 64 then st else blocks (compress st (take 64 bs)) (drop 64 bs))"
  by pat_completeness auto
termination
  by (relation "measure (\<lambda>(st, bs). length bs)") auto

declare blocks.simps [simp del]

definition word_bytes :: "word32 \<Rightarrow> byte list" where
  "word_bytes w = [ucast (drop_bit 24 w), ucast (drop_bit 16 w), ucast (drop_bit 8 w), ucast w]"

fun state_bytes :: "hash_state \<Rightarrow> byte list" where
  "state_bytes (a, b, c, d, e, f, g, h) = concat (map word_bytes [a, b, c, d, e, f, g, h])"

definition sha256 :: "byte list \<Rightarrow> byte list" where
  "sha256 m = state_bytes (blocks H256 (pad m))"

subsection \<open>HMAC and the hexadecimal digest\<close>

definition hmac_sha256 :: "byte list \<Rightarrow> byte list \<Rightarrow> byte list" where
  "hmac_sha256 key msg =
     (let k0 = (if length key > 64 then sha256 key else key);
          k = k0 @ replicate (64 - length k0) 0
      in sha256 (map (\<lambda>b. b XOR 0x5c) k @ sha256 (map (\<lambda>b. b XOR 0x36) k @ msg)))"

definition hex_digit :: "byte \<Rightarrow> code_unit" where
  "hex_digit n = (if n < 10 then 0x30 + ucast n else 0x57 + ucast n)"

definition hex :: "byte list \<Rightarrow> jsstring" where
  "hex bs = concat (map (\<lambda>b. [hex_digit (drop_bit 4 b), hex_digit (b AND 0x0F)]) bs)"

definition hmac_sha256_hex :: "jsstring \<Rightarrow> jsstring \<Rightarrow> jsstring" where
  "hmac_sha256_hex key msg = hex (hmac_sha256 (utf8_encode key) (utf8_encode msg))"

section \<open>The signature verifier\<close>

text \<open>
  \<^verbatim>\<open>verifyShopifyRequest(searchParams, sharedSecret)\<close>, defined word for word alike in
  \<^verbatim>\<open>app/routes/orders.jsx\<close> and \<^verbatim>\<open>app/routes/proxy.$.jsx\<close>.

  A \<^verbatim>\<open>URLSearchParams\<close> object is the list of its name/value pairs in order; a name may
  occur more than once. \<^verbatim>\<open>get\<close> returns the first value of a name (\<^verbatim>\<open>null\<close> when there
  is none) and \<^verbatim>\<open>delete\<close> removes every pair of a name.
\<close>

type_synonym url_search_params = "(jsstring \<times> jsstring) list"

definition get_param :: "url_search_params \<Rightarrow> jsstring \<Rightarrow> jsstring option" where
  "get_param params name = map_of params name"

definition delete_param :: "url_search_params \<Rightarrow> jsstring \<Rightarrow> url_search_params" where
  "delete_param params name = filter (\<lambda>(k, v). k \<noteq> name) params"

text \<open>
  \<^verbatim>\<open>Array.prototype.sort(comparefn)\<close> is a stable sort: with a consistent comparison
  function its result is the one arrangement of the array that is ascending and keeps
  the input order of elements that compare equal. Insertion from the right computes it.
\<close>

fun insert_sorted :: "('a \<Rightarrow> 'a \<Rightarrow> int) \<Rightarrow> 'a \<Rightarrow> 'a list \<Rightarrow> 'a list" where
  "insert_sorted cmp x [] = [x]"
| "insert_sorted cmp x (y # ys) =
     (if cmp x y \<le> 0 then x # y # ys else y # insert_sorted cmp x ys)"

definition array_sort :: "('a \<Rightarrow> 'a \<Rightarrow> int) \<Rightarrow> 'a list \<Rightarrow> 'a list" where
  "array_sort cmp xs = foldr (insert_sorted cmp) xs []"

text \<open>
  \<^verbatim>\<open>a.localeCompare(b)\<close> is the collation of the runtime's locale (ECMA-402); the program
  does not define it, so the model takes it as the parameter \<open>lc\<close>. What the language
  requires of it is that it is a consistent comparison function.
\<close>

definition consistent_comparator :: "(jsstring \<Rightarrow> jsstring \<Rightarrow> int) \<Rightarrow> bool" where
  "consistent_comparator lc \<longleftrightarrow>
     (\<forall>a b. (lc a b < 0) = (0 < lc b a)) \<and>
     (\<forall>a b c. lc a b \<le> 0 \<longrightarrow> lc b c \<le> 0 \<longrightarrow> lc a c \<le> 0)"

text \<open>
  The array \<^verbatim>\<open>Array.from(params.entries()).sort(([a], [b]) => a.localeCompare(b))\<close>, and
  the string \<^verbatim>\<open>sortedParams\<close> made of it by \<^verbatim>\<open>.map(([key, value]) => `${key}=${value}`)\<close>
  and \<^verbatim>\<open>.join("")\<close>.
\<close>

definition sortedEntries ::
  "(jsstring \<Rightarrow> jsstring \<Rightarrow> int) \<Rightarrow> url_search_params \<Rightarrow> (jsstring \<times> jsstring) list" where
  "sortedEntries lc searchParams =
     array_sort (\<lambda>p q. lc (fst p) (fst q)) (delete_param searchParams (js ''signature''))"

definition sortedParams :: "(jsstring \<Rightarrow> jsstring \<Rightarrow> int) \<Rightarrow> url_search_params \<Rightarrow> jsstring" where
  "sortedParams lc searchParams =
     join [] (map (\<lambda>(key, val). key @ js ''='' @ val) (sortedEntries lc searchParams))"

text \<open>
  \<open>sharedSecret\<close> is \<^verbatim>\<open>process.env.SHOPIFY_API_SECRET\<close>: a string, or \<^verbatim>\<open>undefined\<close>
  (\<open>None\<close>) when the variable is not set. \<^verbatim>\<open>!x\<close> holds of \<^verbatim>\<open>undefined\<close>, of \<^verbatim>\<open>null\<close> and of
  the empty string.
\<close>

definition verifyShopifyRequest ::
  "(jsstring \<Rightarrow> jsstring \<Rightarrow> int) \<Rightarrow> url_search_params \<Rightarrow> jsstring option \<Rightarrow> bool" where
  "verifyShopifyRequest lc searchParams sharedSecret =
     (case sharedSecret of
        None \<Rightarrow> False
      | Some secret \<Rightarrow>
          if secret = [] then False
          else (case get_param searchParams (js ''signature'') of
                  None \<Rightarrow> False
                | Some signature \<Rightarrow>
                    if signature = [] then False
                    else (let computedSignature =
                                hmac_sha256_hex secret (sortedParams lc searchParams)
                          in computedSignature = signature)))"

subsection \<open>A collation for the examples\<close>

text \<open>
  Examples need one concrete comparison function. \<open>alphabetical_compare\<close> orders strings
  of ASCII letters as the collation of an English or root locale does: alphabetically
  without regard to case, and where that does not decide, lower case first. So
  \<^verbatim>\<open>"a".localeCompare("B")\<close> is negative although the code unit of \<^verbatim>\<open>B\<close> is the smaller.
\<close>

definition is_upper :: "code_unit \<Rightarrow> bool" where
  "is_upper c = (0x41 \<le> c \<and> c \<le> 0x5A)"

definition collation_key :: "jsstring \<Rightarrow> jsstring \<times> bool list" where
  "collation_key s = (map (\<lambda>c. if is_upper c then c + 0x20 else c) s, map is_upper s)"

definition alphabetical_compare :: "jsstring \<Rightarrow> jsstring \<Rightarrow> int" where
  "alphabetical_compare a b =
     (if collation_key a < collation_key b then - 1
      else if collation_key a = collation_key b then 0 else 1)"

text \<open>
  The order the specification names: ordinal comparison, code unit by code unit (on
  ASCII strings, byte by byte).
\<close>

definition ordinal_sorted :: "jsstring list \<Rightarrow> bool" where
  "ordinal_sorted keys = sorted_wrt (\<lambda>a b. a \<le> b) keys"


section \<open>JavaScript values\<close>

text \<open>
  The body of a request reaches the normalizer as whatever \<^verbatim>\<open>request.json()\<close>,
  \<^verbatim>\<open>Object.fromEntries(formData)\<close> or \<^verbatim>\<open>request.text()\<close> returned: any value that JSON can
  describe. An object is the list of its own properties. Numbers are the finite values,
  the two infinities (\<open>Infinity True\<close> the negative one) and \<^verbatim>\<open>NaN\<close>.
\<close>

datatype jsnum = NaN | Infinity bool | Finite real

datatype jsval =
    JUndefined
  | JNull
  | JBoolean bool
  | JNumber jsnum
  | JString jsstring
  | JArray "jsval list"
  | JObject "(jsstring \<times> jsval) list"

text \<open>The test \<^verbatim>\<open>if (x)\<close>.\<close>

fun truthy :: "jsval \<Rightarrow> bool" where
  "truthy JUndefined = False"
| "truthy JNull = False"
| "truthy (JBoolean b) = b"
| "truthy (JNumber n) = (n \<noteq> NaN \<and> n \<noteq> Finite 0)"
| "truthy (JString s) = (s \<noteq> [])"
| "truthy (JArray xs) = True"
| "truthy (JObject props) = True"

text \<open>
  What can be thrown. \<open>TypeError\<close> and \<open>SyntaxError\<close> are the error objects that the
  language itself raises; \<open>Thrown v\<close> is the value \<open>v\<close> thrown by a collaborator or by
  the platform: an \<^verbatim>\<open>Error\<close> or a \<^verbatim>\<open>Response\<close> object as a rule, but any value can be
  thrown, \<^verbatim>\<open>null\<close> and \<^verbatim>\<open>undefined\<close> included.
\<close>

datatype js_error = TypeError | SyntaxError | Thrown jsval

text \<open>
  A \<^verbatim>\<open>catch\<close> block that reads \<^verbatim>\<open>error.message\<close> can do so of every caught value except
  \<^verbatim>\<open>null\<close> and \<^verbatim>\<open>undefined\<close>, where the read itself throws a \<open>TypeError\<close>.
\<close>

definition has_message :: "js_error \<Rightarrow> bool" where
  "has_message error = (error \<noteq> Thrown JUndefined \<and> error \<noteq> Thrown JNull)"

text \<open>
  Reading a property, for the names this program reads (\<^verbatim>\<open>quote[...]\<close>, \<^verbatim>\<open>variantId\<close>,
  \<^verbatim>\<open>quantity\<close>), which no built-in prototype defines: an object yields its own property,
  every other value \<^verbatim>\<open>undefined\<close>, and on \<^verbatim>\<open>null\<close> and \<^verbatim>\<open>undefined\<close> the read throws.
\<close>

fun property :: "jsval \<Rightarrow> jsstring \<Rightarrow> jsval" where
  "property (JObject props) name = (case map_of props name of Some v \<Rightarrow> v | None \<Rightarrow> JUndefined)"
| "property v name = JUndefined"

definition get_property :: "jsval \<Rightarrow> jsstring \<Rightarrow> js_error + jsval" where
  "get_property v name =
     (if v = JUndefined \<or> v = JNull then Inl TypeError else Inr (property v name))"

section \<open>The order payload normalizer\<close>

record line_item =
  variantId :: jsval
  quantity :: jsval

record order_data =
  email :: jsval
  full_name :: jsval
  shipping_address1 :: jsval
  shipping_city :: jsval
  shipping_province :: jsval
  shipping_country :: jsval
  shipping_zip :: jsval
  cart :: jsval
  cart_line_items :: jsval
  cart_total :: jsval
  lineItems :: "line_item list option"

subsection \<open>\<^verbatim>\<open>parseCartText\<close>\<close>

definition times_sign :: code_unit where
  "times_sign = 0xD7"

definition dollar_sign :: code_unit where
  "dollar_sign = 0x24"

definition line_feed :: code_unit where
  "line_feed = 0x0A"

definition fallback_variant :: jsstring where
  "fallback_variant = js ''gid://shopify/ProductVariant/49457743036715''"

text \<open>The classes \<^verbatim>\<open>\d\<close> and \<^verbatim>\<open>\s\<close> of a regular expression.\<close>

definition is_digit :: "code_unit \<Rightarrow> bool" where
  "is_digit c = (0x30 \<le> c \<and> c \<le> 0x39)"

definition is_space :: "code_unit \<Rightarrow> bool" where
  "is_space c =
     (c \<in> {0x09, 0x0A, 0x0B, 0x0C, 0x0D, 0x20, 0xA0, 0x1680, 0x2028, 0x2029, 0x202F, 0x205F,
            0x3000, 0xFEFF}
      \<or> (0x2000 \<le> c \<and> c \<le> 0x200A))"

text \<open>
  \<^verbatim>\<open>line.match(/(\d+)\s*\<close>\<open>\<times>\<close>\<^verbatim>\<open>/)\<close>: the group \<^verbatim>\<open>quantityMatch[1]\<close> of the first match, or
  \<open>None\<close> for \<^verbatim>\<open>null\<close>. \<open>match_here\<close> tries the expression at the start of a string as
  the backtracking matcher does: \<^verbatim>\<open>\d+\<close> takes every digit, \<^verbatim>\<open>\s*\<close> every space, and the next
  code unit must be the multiplication sign; giving back digits or spaces cannot help,
  since the sign is neither. \<open>match_quantity\<close> tries each start from the left.
\<close>

definition match_here :: "jsstring \<Rightarrow> jsstring option" where
  "match_here s =
     (let digits = takeWhile is_digit s in
      if digits = [] then None
      else (case dropWhile is_space (dropWhile is_digit s) of
              [] \<Rightarrow> None
            | c # rest \<Rightarrow> if c = times_sign then Some digits else None))"

fun match_quantity :: "jsstring \<Rightarrow> jsstring option" where
  "match_quantity [] = None"
| "match_quantity (c # s) =
     (case match_here (c # s) of
        Some digits \<Rightarrow> Some digits
      | None \<Rightarrow> match_quantity s)"

text \<open>
  A JavaScript number is a double. \<open>to_double n\<close> is the Number value for the natural
  number \<open>n\<close>: \<open>n\<close> rounded to 53 significant binary digits, to the nearest such value
  and, of two equally near, to the one of even significand; from \<open>2\<^sup>1\<^sup>0\<^sup>2\<^sup>4\<close> on the rounded
  value is \<^verbatim>\<open>Infinity\<close>. Here \<open>e\<close> is the number of binary digits of \<open>n\<close> beyond 53, \<open>q\<close>
  the leading 53 digits and \<open>r\<close> the \<open>e\<close> digits cut off.
\<close>

definition to_double :: "nat \<Rightarrow> jsnum" where
  "to_double n =
     (let e = floorlog 2 n - 53;
          q = n div 2 ^ e;
          r = n mod 2 ^ e;
          m = (if 2 * r < 2 ^ e \<or> (2 * r = 2 ^ e \<and> even q) then q else q + 1)
      in if 2 ^ 1024 \<le> m * 2 ^ e then Infinity False else Finite (real (m * 2 ^ e)))"

text \<open>
  \<^verbatim>\<open>parseInt\<close> on a string of decimal digits: the digits are accumulated from the left
  into the integer they denote, and the result is the Number value for that integer.
\<close>

definition parseInt :: "jsstring \<Rightarrow> jsnum" where
  "parseInt digits = to_double (foldl (\<lambda>n c. 10 * n + unat (c - 0x30)) 0 digits)"

definition line_item_of :: "jsstring \<Rightarrow> line_item" where
  "line_item_of line =
     (let quantityMatch = match_quantity line;
          qty = (case quantityMatch of Some digits \<Rightarrow> parseInt digits | None \<Rightarrow> Finite 1)
      in \<lparr>variantId = JString fallback_variant, quantity = JNumber qty\<rparr>)"

text \<open>
  \<open>cartText\<close> is whatever the payload held under \<^verbatim>\<open>quote[Cart]\<close>. A value that is truthy
  and not a string has no \<^verbatim>\<open>split\<close> method, and the call throws.
\<close>

definition parseCartText :: "jsval \<Rightarrow> js_error + line_item list" where
  "parseCartText cartText =
     (if \<not> truthy cartText then Inr []
      else (case cartText of
              JString s \<Rightarrow>
                (let cartLines =
                       filter (\<lambda>line. includes_str line [times_sign] \<and> includes_str line [dollar_sign])
                         (split_at line_feed s)
                 in Inr (map line_item_of cartLines))
            | _ \<Rightarrow> Inl TypeError))"

subsection \<open>\<^verbatim>\<open>parseOrderData\<close>\<close>

text \<open>
  The object literal that \<open>parseOrderData\<close> starts with reads ten properties of the
  payload; \<open>lineItems\<close> is not among them and stays unset (\<open>None\<close>) until assigned.
\<close>

definition initial_order_data :: "jsval \<Rightarrow> order_data" where
  "initial_order_data payload = \<lparr>
     email = property payload (js ''quote[email]''),
     full_name = property payload (js ''quote[full_name]''),
     shipping_address1 = property payload (js ''quote[shipping_address1]''),
     shipping_city = property payload (js ''quote[shipping_city]''),
     shipping_province = property payload (js ''quote[shipping_province]''),
     shipping_country = property payload (js ''quote[shipping_country]''),
     shipping_zip = property payload (js ''quote[shipping_zip]''),
     cart = property payload (js ''quote[Cart]''),
     cart_line_items = property payload (js ''quote[cart_line_items]''),
     cart_total = property payload (js ''quote[cart_total]''),
     lineItems = None\<rparr>"

definition read_fields :: "jsval \<Rightarrow> js_error + order_data" where
  "read_fields payload =
     (if payload = JUndefined \<or> payload = JNull then Inl TypeError
      else Inr (initial_order_data payload))"

text \<open>
  \<^verbatim>\<open>lineItems.map((item) => ({variantId: item.variantId, quantity: item.quantity}))\<close>:
  only an array has \<^verbatim>\<open>map\<close>, and reading a property of a \<^verbatim>\<open>null\<close> element throws.
\<close>

fun map_items :: "jsval list \<Rightarrow> js_error + line_item list" where
  "map_items [] = Inr []"
| "map_items (item # items) =
     (case get_property item (js ''variantId'') of
        Inl e \<Rightarrow> Inl e
      | Inr vid \<Rightarrow>
          (case get_property item (js ''quantity'') of
             Inl e \<Rightarrow> Inl e
           | Inr qty \<Rightarrow>
               (case map_items items of
                  Inl e \<Rightarrow> Inl e
                | Inr rest \<Rightarrow> Inr (\<lparr>variantId = vid, quantity = qty\<rparr> # rest))))"

definition map_line_items :: "jsval \<Rightarrow> js_error + line_item list" where
  "map_line_items parsed =
     (case parsed of JArray items \<Rightarrow> map_items items | _ \<Rightarrow> Inl TypeError)"

text \<open>
  \<^verbatim>\<open>JSON.parse\<close> is a built-in of the runtime; the model takes it as the parameter
  \<open>JSON_parse\<close>, from the value it is called on (which it converts to a string first) to
  the value it returns or the error it throws. \<open>structured_items\<close> is the body of the
  \<^verbatim>\<open>try\<close> block.
\<close>

definition structured_items ::
  "(jsval \<Rightarrow> js_error + jsval) \<Rightarrow> jsval \<Rightarrow> js_error + line_item list" where
  "structured_items JSON_parse text_value =
     (case JSON_parse text_value of
        Inl e \<Rightarrow> Inl e
      | Inr parsed \<Rightarrow> map_line_items parsed)"

definition set_lineItems :: "order_data \<Rightarrow> js_error + line_item list \<Rightarrow> js_error + order_data" where
  "set_lineItems orderData r =
     (case r of Inl e \<Rightarrow> Inl e | Inr items \<Rightarrow> Inr (orderData\<lparr>lineItems := Some items\<rparr>))"

definition parseOrderData :: "(jsval \<Rightarrow> js_error + jsval) \<Rightarrow> jsval \<Rightarrow> js_error + order_data" where
  "parseOrderData JSON_parse payload =
     (case read_fields payload of
        Inl e \<Rightarrow> Inl e
      | Inr orderData \<Rightarrow>
          if truthy (cart_line_items orderData) then
            (case structured_items JSON_parse (cart_line_items orderData) of
               Inr items \<Rightarrow> Inr (orderData\<lparr>lineItems := Some items\<rparr>)
             | Inl error \<Rightarrow> set_lineItems orderData (parseCartText (cart orderData)))
          else if truthy (cart orderData) then
            set_lineItems orderData (parseCartText (cart orderData))
          else Inr orderData)"

subsection \<open>What the specification says of a cart line\<close>

text \<open>
  A match of \<^verbatim>\<open>(\d+)\s*\<close>\<open>\<times>\<close> in \<open>line\<close> at index \<open>i\<close> with group \<open>digits\<close>: from \<open>i\<close> on the
  line reads one or more digits, then any number of spaces, then the multiplication
  sign. The integer matched is the decimal value of the digits of the first match (the
  match of least index): each digit times the power of ten of its place. The quantity of
  a line is the Number value for that integer, and 1 when there is no match.
\<close>

fun decimal_value :: "jsstring \<Rightarrow> nat" where
  "decimal_value [] = 0"
| "decimal_value (c # cs) = unat (c - 0x30) * 10 ^ length cs + decimal_value cs"

definition matches_at :: "jsstring \<Rightarrow> nat \<Rightarrow> jsstring \<Rightarrow> bool" where
  "matches_at line i digits \<longleftrightarrow>
     i \<le> length line \<and> digits \<noteq> [] \<and> (\<forall>c \<in> set digits. is_digit c) \<and>
     (\<exists>spaces rest. (\<forall>c \<in> set spaces. is_space c) \<and>
        drop i line = digits @ spaces @ times_sign # rest)"

definition quantity_of_line :: "jsstring \<Rightarrow> jsnum \<Rightarrow> bool" where
  "quantity_of_line line q \<longleftrightarrow>
     (\<exists>i digits. matches_at line i digits \<and> (\<forall>j < i. \<forall>d. \<not> matches_at line j d) \<and>
        q = to_double (decimal_value digits))
     \<or> ((\<forall>i d. \<not> matches_at line i d) \<and> q = Finite 1)"

definition item_lines :: "jsstring \<Rightarrow> jsstring list" where
  "item_lines s =
     filter (\<lambda>line. times_sign \<in> set line \<and> dollar_sign \<in> set line) (split_at line_feed s)"

text \<open>
  The line items of paths (2) and (3) of the specification: derived from the cart
  description when it is a string, none otherwise.
\<close>

definition free_text_items :: "jsval \<Rightarrow> line_item list" where
  "free_text_items cartText =
     (case cartText of JString s \<Rightarrow> map line_item_of (item_lines s) | _ \<Rightarrow> [])"

text \<open>
  The cart description of the specification's example:
  \<^verbatim>\<open>"2 \<close>\<open>\<times>\<close>\<^verbatim>\<open> Widget $10.00\n1 \<close>\<open>\<times>\<close>\<^verbatim>\<open> Gadget $5.00"\<close>.
\<close>

definition sample_cart :: jsstring where
  "sample_cart =
     js ''2 '' @ [times_sign] @ js '' Widget $10.00'' @ [line_feed]
       @ js ''1 '' @ [times_sign] @ js '' Gadget $5.00''"

subsection \<open>A table of \<^verbatim>\<open>JSON.parse\<close> for the examples\<close>

text \<open>
  Examples need one concrete parser. \<open>JSON_parse_sample\<close> agrees with \<^verbatim>\<open>JSON.parse\<close> on
  the three JSON texts it lists; the examples call it on these and on texts that are not
  JSON.
\<close>

definition JSON_parse_sample :: "jsval \<Rightarrow> js_error + jsval" where
  "JSON_parse_sample v =
     (if v = JString (js ''null'') then Inr JNull
      else if v = JString (js ''[null]'') then Inr (JArray [JNull])
      else if v = JString (js ''[{\"variantId\":\"gid://shopify/ProductVariant/123\",\"quantity\":3}]'')
        then Inr (JArray [JObject
               [(js ''variantId'', JString (js ''gid://shopify/ProductVariant/123'')),
                (js ''quantity'', JNumber (Finite 3))]])
      else Inl SyntaxError)"

section \<open>The orders handler\<close>

text \<open>
  \<^verbatim>\<open>action\<close> of \<^verbatim>\<open>app/routes/orders.jsx\<close>. Of the request it reads the query parameters, the
  \<^verbatim>\<open>content-type\<close> header and the body; each way of reading the body returns or throws.
\<close>

record request =
  searchParams :: url_search_params
  content_type :: "jsstring option"
  json_body :: "js_error + jsval"
  form_body :: "js_error + (jsstring \<times> jsstring) list"
  text_body :: "js_error + jsstring"

text \<open>
  \<^verbatim>\<open>Object.fromEntries(formData)\<close>: one property for each name, holding the last value given
  for it.
\<close>

definition fromEntries :: "(jsstring \<times> jsstring) list \<Rightarrow> jsval" where
  "fromEntries entries = JObject (fold (\<lambda>(k, v). AList.update k (JString v)) entries [])"

definition read_payload :: "request \<Rightarrow> js_error + jsval" where
  "read_payload req =
     (case content_type req of
        None \<Rightarrow> map_sum id JString (text_body req)
      | Some contentType \<Rightarrow>
          if includes_str contentType (js ''application/json'') then json_body req
          else if includes_str contentType (js ''application/x-www-form-urlencoded'') then
            map_sum id fromEntries (form_body req)
          else map_sum id JString (text_body req))"

text \<open>
  The order-submission collaborator. \<^verbatim>\<open>unauthenticated.admin(shop)\<close> resolves to an object
  of which the handler takes the client \<^verbatim>\<open>admin\<close>, and
  \<^verbatim>\<open>admin.graphql(DRAFT_ORDER_MUTATION, {variables})\<close> resolves to the response; either may
  throw or reject instead. What they resolve to is theirs to choose: \<open>None\<close> stands for
  no client (the object is \<^verbatim>\<open>null\<close> or \<^verbatim>\<open>undefined\<close>, or has no usable \<^verbatim>\<open>admin\<close>) and for a
  response that is \<^verbatim>\<open>null\<close> or \<^verbatim>\<open>undefined\<close>.
\<close>

record draft_order_input =
  input_email :: jsval
  input_address1 :: jsval
  input_city :: jsval
  input_province :: jsval
  input_country :: jsval
  input_zip :: jsval
  input_lineItems :: "line_item list option"
  input_tags :: "jsstring list"

record ('admin, 'response) platform =
  unauthenticated_admin :: "jsstring \<Rightarrow> js_error + 'admin option"
  graphql :: "'admin \<Rightarrow> draft_order_input \<Rightarrow> js_error + 'response option"

text \<open>
  \<open>createDraftOrder\<close> builds the input of the mutation (the e-mail address, the shipping
  address, the line items and the tag), calls \<^verbatim>\<open>admin.graphql\<close> and rethrows what the call
  throws; without a client the call itself is a \<open>TypeError\<close>.
\<close>

definition createDraftOrder ::
  "('admin, 'response) platform \<Rightarrow> 'admin option \<Rightarrow> order_data \<Rightarrow> js_error + 'response option" where
  "createDraftOrder api admin orderData =
     (let variables = \<lparr>
            input_email = email orderData,
            input_address1 = shipping_address1 orderData,
            input_city = shipping_city orderData,
            input_province = shipping_province orderData,
            input_country = shipping_country orderData,
            input_zip = shipping_zip orderData,
            input_lineItems = lineItems orderData,
            input_tags = [js ''International-Quote'']\<rparr>
      in case admin of
           None \<Rightarrow> Inl TypeError
         | Some client \<Rightarrow> graphql api client variables)"

text \<open>
  The JSON body of the response, by its three shapes, without its \<^verbatim>\<open>timestamp\<close> and fixed
  texts. \<open>draftOrder\<close> is \<^verbatim>\<open>null\<close>, the collaborator's response, or the object
  \<^verbatim>\<open>{error: error.message, success: false}\<close> made of the error that was caught, which
  \<open>caught\<close> records in place of its message.
\<close>

record draft_failure =
  caught :: js_error
  success :: bool

datatype 'response draft_result =
    NoDraftOrder
  | DraftOrderResponse 'response
  | DraftOrderFailure draft_failure

datatype 'response response_body =
    Unauthorized
  | Failed js_error
  | Received order_data "'response draft_result"

record 'response response =
  status :: nat
  body :: "'response response_body"

text \<open>
  The body of the inner \<^verbatim>\<open>try\<close> block for a truthy \<open>shop\<close>: the client is taken, the draft
  order is created, and the \<^verbatim>\<open>data\<close> of the response is read for the log, which throws a
  \<open>TypeError\<close> where the response is \<^verbatim>\<open>null\<close> or \<^verbatim>\<open>undefined\<close>.
\<close>

definition submit_order ::
  "('admin, 'response) platform \<Rightarrow> jsstring \<Rightarrow> order_data \<Rightarrow> js_error + 'response" where
  "submit_order api shop orderData =
     (case unauthenticated_admin api shop of
        Inl e \<Rightarrow> Inl e
      | Inr admin \<Rightarrow>
          (case createDraftOrder api admin orderData of
             Inl e \<Rightarrow> Inl e
           | Inr None \<Rightarrow> Inl TypeError
           | Inr (Some draftOrderResponse) \<Rightarrow> Inr draftOrderResponse))"

text \<open>
  The inner \<^verbatim>\<open>try\<close> block and its \<^verbatim>\<open>catch\<close>: the value of \<open>draftOrderResult\<close>. The \<^verbatim>\<open>catch\<close>
  reads \<^verbatim>\<open>error.message\<close>; where that read throws, the \<open>TypeError\<close> leaves the block.
\<close>

definition draftOrderResult ::
  "('admin, 'response) platform \<Rightarrow> url_search_params \<Rightarrow> order_data \<Rightarrow>
   js_error + 'response draft_result" where
  "draftOrderResult api params orderData =
     (case get_param params (js ''shop'') of
        None \<Rightarrow> Inr NoDraftOrder
      | Some shop \<Rightarrow>
          if shop = [] then Inr NoDraftOrder
          else (case submit_order api shop orderData of
                  Inr draftOrderResponse \<Rightarrow> Inr (DraftOrderResponse draftOrderResponse)
                | Inl error \<Rightarrow>
                    if has_message error
                    then Inr (DraftOrderFailure \<lparr>caught = error, success = False\<rparr>)
                    else Inl TypeError))"

text \<open>
  The outer \<^verbatim>\<open>try\<close> block: the body is read and normalized, the draft order is attempted,
  and the answer is 200.
\<close>

definition process_payload ::
  "(jsval \<Rightarrow> js_error + jsval) \<Rightarrow> ('admin, 'response) platform \<Rightarrow> request \<Rightarrow>
   js_error + 'response response" where
  "process_payload JSON_parse api req =
     (case read_payload req of
        Inl e \<Rightarrow> Inl e
      | Inr payload \<Rightarrow>
          (case parseOrderData JSON_parse payload of
             Inl e \<Rightarrow> Inl e
           | Inr orderData \<Rightarrow>
               (case draftOrderResult api (searchParams req) orderData of
                  Inl e \<Rightarrow> Inl e
                | Inr draftOrder \<Rightarrow>
                    Inr \<lparr>status = 200, body = Received orderData draftOrder\<rparr>)))"

text \<open>
  \<open>sharedSecret\<close> is \<^verbatim>\<open>process.env.SHOPIFY_API_SECRET\<close>. An error that leaves the outer
  \<^verbatim>\<open>try\<close> block reaches its \<^verbatim>\<open>catch\<close>, which reads \<^verbatim>\<open>error.message\<close> and answers 500; where
  that read throws, \<open>action\<close> itself throws the \<open>TypeError\<close>.
\<close>

definition action ::
  "(jsstring \<Rightarrow> jsstring \<Rightarrow> int) \<Rightarrow> (jsval \<Rightarrow> js_error + jsval) \<Rightarrow> ('admin, 'response) platform \<Rightarrow>
   jsstring option \<Rightarrow> request \<Rightarrow> js_error + 'response response" where
  "action lc JSON_parse api sharedSecret req =
     (let isVerified = verifyShopifyRequest lc (searchParams req) sharedSecret in
      if \<not> isVerified then Inr \<lparr>status = 401, body = Unauthorized\<rparr>
      else (case process_payload JSON_parse api req of
              Inr answer \<Rightarrow> Inr answer
            | Inl error \<Rightarrow>
                if has_message error then Inr \<lparr>status = 500, body = Failed error\<rparr>
                else Inl TypeError))"

section \<open>Test vectors of the digest\<close>

text \<open>
  The definitions of SHA-256 and HMAC above, evaluated on the vector \<^verbatim>\<open>"abc"\<close> of
  FIPS 180-4 and on two strings under the secret \<^verbatim>\<open>hush\<close>; the digests are those that
  \<^verbatim>\<open>crypto.createHmac("sha256", "hush").update(...).digest("hex")\<close> gives.
\<close>

lemma sha256_abc:
  "hex (sha256 (utf8_encode (js ''abc''))) =
     js ''ba7816bf8f01cfea414140de5dae2223b00361a396177a9cb410ff61f20015ad''"
  by code_simp



section \<open>Facts about the digest and about sorting\<close>

lemma length_state_bytes: "length (state_bytes st) = 32"
  by (cases st rule: state_bytes.cases) (simp add: word_bytes_def)

lemma length_hex: "length (hex bs) = 2 * length bs"
  by (induction bs) (simp_all add: hex_def)

lemma length_hmac_sha256_hex: "length (hmac_sha256_hex key text) = 64"
  by (simp add: hmac_sha256_hex_def hmac_sha256_def Let_def sha256_def length_hex length_state_bytes)

lemma hmac_sha256_hex_not_empty: "hmac_sha256_hex key msg \<noteq> []"
  using length_hmac_sha256_hex [of key msg] by auto

lemma join_empty_sep: "join [] ps = concat ps"
  by (induction "[] :: jsstring" ps rule: join.induct) simp_all

lemma mset_insert_sorted: "mset (insert_sorted cmp x ys) = add_mset x (mset ys)"
  by (induction ys) simp_all

lemma mset_array_sort: "mset (array_sort cmp xs) = mset xs"
  by (induction xs) (simp_all add: array_sort_def mset_insert_sorted)

lemma set_insert_sorted: "set (insert_sorted cmp x ys) = insert x (set ys)"
  by (induction ys) auto

lemma sorted_insert_sorted:
  assumes total: "\<And>a b. cmp a b \<le> 0 \<or> cmp b a \<le> 0"
    and trans: "\<And>a b c. cmp a b \<le> 0 \<Longrightarrow> cmp b c \<le> 0 \<Longrightarrow> cmp a c \<le> 0"
    and sorted: "sorted_wrt (\<lambda>a b. cmp a b \<le> 0) ys"
  shows "sorted_wrt (\<lambda>a b. cmp a b \<le> 0) (insert_sorted cmp x ys)"
  using sorted
proof (induction ys)
  case Nil
  then show ?case by simp
next
  case (Cons y ys)
  show ?case
  proof (cases "cmp x y \<le> 0")
    case True
    with Cons.prems show ?thesis by (auto intro: trans)
  next
    case False
    with total [of x y] have "cmp y x \<le> 0" by simp
    with False Cons show ?thesis by (auto simp: set_insert_sorted)
  qed
qed

lemma sorted_array_sort:
  assumes total: "\<And>a b. cmp a b \<le> 0 \<or> cmp b a \<le> 0"
    and trans: "\<And>a b c. cmp a b \<le> 0 \<Longrightarrow> cmp b c \<le> 0 \<Longrightarrow> cmp a c \<le> 0"
  shows "sorted_wrt (\<lambda>a b. cmp a b \<le> 0) (array_sort cmp xs)"
proof (induction xs)
  case Nil
  show ?case by (simp add: array_sort_def)
next
  case (Cons x xs)
  have "array_sort cmp (x # xs) = insert_sorted cmp x (array_sort cmp xs)"
    by (simp add: array_sort_def)
  with Cons show ?case
    using sorted_insert_sorted [of cmp "array_sort cmp xs" x] total trans by metis
qed

lemma sorted_wrt_unique:
  assumes "sorted_wrt R xs" and "sorted_wrt R ys" and "mset xs = mset ys"
    and antisym: "\<And>a b. a \<in> set xs \<Longrightarrow> b \<in> set xs \<Longrightarrow> R a b \<Longrightarrow> R b a \<Longrightarrow> a = b"
  shows "xs = ys"
  using assms
proof (induction xs arbitrary: ys)
  case Nil
  then show ?case by simp
next
  case (Cons x xs)
  from Cons.prems(3) obtain y ys' where ys: "ys = y # ys'"
    by (cases ys) auto
  have sets: "set (x # xs) = set ys"
    using Cons.prems(3) by (metis set_mset_mset)
  have "x = y"
  proof (rule ccontr)
    assume neq: "x \<noteq> y"
    with sets ys have "x \<in> set ys'" and "y \<in> set xs" by auto
    with Cons.prems(1,2) ys have "R y x" and "R x y" by auto
    moreover have "y \<in> set (x # xs)" using \<open>y \<in> set xs\<close> by simp
    ultimately show False using neq Cons.prems(4) [of x y] by simp
  qed
  moreover have "xs = ys'"
  proof (rule Cons.IH)
    show "sorted_wrt R xs" using Cons.prems(1) by simp
    show "sorted_wrt R ys'" using Cons.prems(2) ys by simp
    show "mset xs = mset ys'" using Cons.prems(3) ys \<open>x = y\<close> by simp
    show "\<And>a b. a \<in> set xs \<Longrightarrow> b \<in> set xs \<Longrightarrow> R a b \<Longrightarrow> R b a \<Longrightarrow> a = b"
      using Cons.prems(4) by simp
  qed
  ultimately show ?case using ys by simp
qed

lemma array_sort_map:
  "array_sort cmp (map f xs) = map f (array_sort (\<lambda>a b. cmp (f a) (f b)) xs)"
proof -
  have ins: "insert_sorted cmp (f x) (map f ys) = map f (insert_sorted (\<lambda>a b. cmp (f a) (f b)) x ys)"
    for x ys by (induction ys) simp_all
  show ?thesis
    by (induction xs) (simp_all add: array_sort_def ins)
qed



lemma sortedParams_concat:
  "sortedParams lc sp = concat (map (\<lambda>(k, v). k @ js ''='' @ v) (sortedEntries lc sp))"
  by (simp add: sortedParams_def join_empty_sep)

lemma consistent_total: "consistent_comparator lc \<Longrightarrow> lc a b \<le> 0 \<or> lc b a \<le> 0"
  unfolding consistent_comparator_def by (metis less_le not_le)

lemma consistent_trans:
  "consistent_comparator lc \<Longrightarrow> lc a b \<le> 0 \<Longrightarrow> lc b c \<le> 0 \<Longrightarrow> lc a c \<le> 0"
  unfolding consistent_comparator_def by blast

lemma consistent_both_zero:
  "consistent_comparator lc \<Longrightarrow> lc a b \<le> 0 \<Longrightarrow> lc b a \<le> 0 \<Longrightarrow> lc a b = 0"
  unfolding consistent_comparator_def by (metis less_le not_le)

lemma sorted_sortedEntries:
  assumes "consistent_comparator lc"
  shows "sorted_wrt (\<lambda>p q. lc (fst p) (fst q) \<le> 0) (sortedEntries lc sp)"
  unfolding sortedEntries_def
proof (rule sorted_array_sort)
  show "lc (fst a) (fst b) \<le> 0 \<or> lc (fst b) (fst a) \<le> 0" for a b :: "jsstring \<times> jsstring"
    using consistent_total [OF assms] .
  show "lc (fst a) (fst b) \<le> 0 \<Longrightarrow> lc (fst b) (fst c) \<le> 0 \<Longrightarrow> lc (fst a) (fst c) \<le> 0"
    for a b c :: "jsstring \<times> jsstring"
    using consistent_trans [OF assms] .
qed

lemma mset_sortedEntries:
  "mset (sortedEntries lc sp) = mset (filter (\<lambda>(k, v). k \<noteq> js ''signature'') sp)"
  by (simp add: sortedEntries_def mset_array_sort delete_param_def)

lemma sorted_keys_ordinal:
  assumes "sorted_wrt (\<lambda>p q. lc (fst p) (fst q) \<le> 0) es"
    and "\<forall>a \<in> fst ` set es. \<forall>b \<in> fst ` set es. (lc a b \<le> 0) = (a \<le> b)"
  shows "ordinal_sorted (map fst es)"
  using assms unfolding ordinal_sorted_def
  by (induction es) auto

lemma get_param_None: "name \<notin> fst ` set params \<Longrightarrow> get_param params name = None"
  by (simp add: get_param_def map_of_eq_None_iff)

lemma consistent_refl: "consistent_comparator lc \<Longrightarrow> lc a a = 0"
  unfolding consistent_comparator_def by (metis less_irrefl linorder_neqE_linordered_idom not_less_iff_gr_or_eq)

lemma map_of_single_valued:
  assumes "set ps = set ps'"
    and "\<And>v1 v2. (n, v1) \<in> set ps \<Longrightarrow> (n, v2) \<in> set ps \<Longrightarrow> v1 = v2"
  shows "map_of ps n = map_of ps' n"
proof (cases "map_of ps n")
  case None
  then have "map_of ps' n = None"
    using assms(1) by (simp add: map_of_eq_None_iff)
  with None show ?thesis by simp
next
  case (Some v)
  then have mem: "(n, v) \<in> set ps"
    by (rule map_of_SomeD)
  then have "n \<in> fst ` set ps'"
    using assms(1) by force
  then obtain v' where v': "map_of ps' n = Some v'"
    by (cases "map_of ps' n") (simp_all add: map_of_eq_None_iff)
  then have "(n, v') \<in> set ps"
    using assms(1) by (auto dest: map_of_SomeD)
  with mem assms(2) have "v' = v" by blast
  with Some v' show ?thesis by simp
qed

lemma consistent_equal_trans:
  assumes "consistent_comparator lc" and "lc x a = 0" and "lc y a = 0"
  shows "lc x y = 0"
proof -
  have sym: "lc a y = 0"
    using assms(1,3) unfolding consistent_comparator_def
    by (metis less_irrefl linorder_neqE_linordered_idom)
  have sym': "lc a x = 0"
    using assms(1,2) unfolding consistent_comparator_def
    by (metis less_irrefl linorder_neqE_linordered_idom)
  have "lc x y \<le> 0"
    using consistent_trans [OF assms(1), of x a y] assms(2) sym by simp
  moreover have "lc y x \<le> 0"
    using consistent_trans [OF assms(1), of y a x] assms(3) sym' by simp
  ultimately show ?thesis
    by (rule consistent_both_zero [OF assms(1)])
qed

lemma filter_insert_sorted:
  assumes "consistent_comparator lc"
  shows "filter (\<lambda>p. lc (fst p) a = 0) (insert_sorted (\<lambda>p q. lc (fst p) (fst q)) x ys) =
    (if lc (fst x) a = 0 then x # filter (\<lambda>p. lc (fst p) a = 0) ys
     else filter (\<lambda>p. lc (fst p) a = 0) ys)"
proof (induction ys)
  case Nil
  show ?case by simp
next
  case (Cons y ys)
  show ?case
  proof (cases "lc (fst x) (fst y) \<le> 0")
    case True
    then show ?thesis by simp
  next
    case False
    then have "\<not> (lc (fst x) a = 0 \<and> lc (fst y) a = 0)"
      using consistent_equal_trans [OF assms, of "fst x" a "fst y"] by auto
    with False Cons show ?thesis by auto
  qed
qed

lemma stable_array_sort:
  assumes "consistent_comparator lc"
  shows "filter (\<lambda>p. lc (fst p) a = 0) (array_sort (\<lambda>p q. lc (fst p) (fst q)) xs) =
    filter (\<lambda>p. lc (fst p) a = 0) xs"
  by (induction xs) (simp_all add: array_sort_def filter_insert_sorted [OF assms])

lemma stable_sortedEntries:
  assumes "consistent_comparator lc"
  shows "filter (\<lambda>p. lc (fst p) a = 0) (sortedEntries lc sp) =
    filter (\<lambda>p. lc (fst p) a = 0) (filter (\<lambda>(k, v). k \<noteq> js ''signature'') sp)"
  by (simp add: sortedEntries_def delete_param_def stable_array_sort [OF assms])

lemma consistent_alphabetical: "consistent_comparator alphabetical_compare"
  unfolding consistent_comparator_def alphabetical_compare_def
  by (auto simp: not_less dest: order.trans less_le_trans le_less_trans)

lemma serialization_changes:
  assumes "k \<noteq> js ''signature''" and "v' \<noteq> v"
  shows "sortedParams lc (xs @ (k, v') # ys) \<noteq> sortedParams lc (xs @ (k, v) # ys)"
proof -
  define dup :: "jsstring \<times> jsstring \<Rightarrow> jsstring \<times> jsstring \<times> jsstring"
    where "dup = (\<lambda>(a, b). (a, b, b))"
  define p1 :: "jsstring \<times> jsstring \<times> jsstring \<Rightarrow> jsstring \<times> jsstring"
    where "p1 = (\<lambda>(a, b, c). (a, b))"
  define p2 :: "jsstring \<times> jsstring \<times> jsstring \<Rightarrow> jsstring \<times> jsstring"
    where "p2 = (\<lambda>(a, b, c). (a, c))"
  define t where "t = map dup xs @ (k, v, v') # map dup ys"
  define keep :: "jsstring \<times> jsstring \<times> jsstring \<Rightarrow> bool"
    where "keep = (\<lambda>e. fst e \<noteq> js ''signature'')"
  define S where "S = array_sort (\<lambda>p q. lc (fst p) (fst q)) (filter keep t)"
  define kv :: "jsstring \<times> jsstring \<Rightarrow> jsstring" where "kv = (\<lambda>(a, b). a @ js ''='' @ b)"
  have p1t: "map p1 t = xs @ (k, v) # ys" and p2t: "map p2 t = xs @ (k, v') # ys"
    by (simp_all add: t_def p1_def p2_def dup_def comp_def case_prod_beta)
  have entries: "sortedEntries lc (map p t) = map p S" if "\<And>e. fst (p e) = fst e" for p
  proof -
    have "delete_param (map p t) (js ''signature'') = map p (filter keep t)"
      by (simp add: delete_param_def filter_map comp_def keep_def case_prod_beta that)
    then show ?thesis
      by (simp add: sortedEntries_def array_sort_map S_def that)
  qed
  have e1: "sortedEntries lc (xs @ (k, v) # ys) = map p1 S"
  proof -
    have "fst (p1 e) = fst e" for e by (simp add: p1_def case_prod_beta)
    then show ?thesis using entries [of p1] p1t by simp
  qed
  have e2: "sortedEntries lc (xs @ (k, v') # ys) = map p2 S"
  proof -
    have "fst (p2 e) = fst e" for e by (simp add: p2_def case_prod_beta)
    then show ?thesis using entries [of p2] p2t by simp
  qed
  have msetS: "mset S = mset (map dup (filter (\<lambda>e. fst e \<noteq> js ''signature'') (xs @ ys))) + {#(k, v, v')#}"
    using assms(1)
    by (simp add: S_def mset_array_sort t_def keep_def filter_map comp_def dup_def case_prod_beta)
  then have "(k, v, v') \<in># mset S"
    by simp
  then have "(k, v, v') \<in> set S"
    by simp
  then obtain A B where S: "S = A @ (k, v, v') # B"
    by (meson split_list)
  have "mset (A @ B) = mset (map dup (filter (\<lambda>e. fst e \<noteq> js ''signature'') (xs @ ys)))"
    using msetS unfolding S by simp
  then have "set (A @ B) = set (map dup (filter (\<lambda>e. fst e \<noteq> js ''signature'') (xs @ ys)))"
    by (rule mset_eq_setD)
  then have "set A \<union> set B \<subseteq> range dup"
    by auto
  moreover have "p1 (dup x) = p2 (dup x)" for x
    by (simp add: dup_def p1_def p2_def case_prod_beta)
  ultimately have same: "p1 e = p2 e" if "e \<in> set A \<union> set B" for e
    using that by blast
  have A: "map p1 A = map p2 A" and B: "map p1 B = map p2 B"
    using same by simp_all
  define X where "X = concat (map kv (map p1 A))"
  define Y where "Y = concat (map kv (map p1 B))"
  have c1: "concat (map kv (map p1 S)) = X @ (k @ js ''='' @ v) @ Y"
    by (simp add: S X_def Y_def p1_def kv_def)
  have c2: "concat (map kv (map p2 S)) = X @ (k @ js ''='' @ v') @ Y"
    unfolding S X_def Y_def A B by (simp add: p2_def kv_def)
  have "concat (map kv (map p2 S)) \<noteq> concat (map kv (map p1 S))"
    unfolding c1 c2 using assms(2) by simp
  then show ?thesis
    by (simp add: sortedParams_concat e1 e2 kv_def)
qed

lemmas eval_defs = sortedParams_def sortedEntries_def delete_param_def array_sort_def
  alphabetical_compare_def collation_key_def is_upper_def js_def

section \<open>The claims about the verifier\<close>

text \<open>
  Claim C1, as the code has it. The keys that remain after \<open>signature\<close> is removed are
  sorted by \<^verbatim>\<open>localeCompare\<close>, the collation of the runtime, and not by ordinal comparison:
  for every consistent comparison function the string \<open>sortedParams\<close> is the
  concatenation of \<open>key=value\<close> over an arrangement of exactly the pairs other than
  \<open>signature\<close> that ascends in the collation and keeps pairs whose keys the collation
  takes for equal in their input order. It ascends in ordinal order as well whenever the
  collation orders the keys present as ordinal comparison does.
\<close>

theorem sortedParams_collation_order:
  assumes "consistent_comparator lc"
  shows "sortedParams lc sp = concat (map (\<lambda>(k, v). k @ js ''='' @ v) (sortedEntries lc sp))
    \<and> mset (sortedEntries lc sp) = mset (filter (\<lambda>(k, v). k \<noteq> js ''signature'') sp)
    \<and> sorted_wrt (\<lambda>p q. lc (fst p) (fst q) \<le> 0) (sortedEntries lc sp)
    \<and> (\<forall>a. filter (\<lambda>p. lc (fst p) a = 0) (sortedEntries lc sp) =
             filter (\<lambda>p. lc (fst p) a = 0) (filter (\<lambda>(k, v). k \<noteq> js ''signature'') sp))
    \<and> ((\<forall>a \<in> fst ` set sp. \<forall>b \<in> fst ` set sp. (lc a b \<le> 0) = (a \<le> b))
         \<longrightarrow> ordinal_sorted (map fst (sortedEntries lc sp)))"
proof -
  have set_eq: "set (sortedEntries lc sp) = set (filter (\<lambda>(k, v). k \<noteq> js ''signature'') sp)"
    using mset_sortedEntries [of lc sp] by (rule mset_eq_setD)
  have sorted: "sorted_wrt (\<lambda>p q. lc (fst p) (fst q) \<le> 0) (sortedEntries lc sp)"
    by (rule sorted_sortedEntries [OF assms])
  have ordinal: "ordinal_sorted (map fst (sortedEntries lc sp))"
    if agree: "\<forall>a \<in> fst ` set sp. \<forall>b \<in> fst ` set sp. (lc a b \<le> 0) = (a \<le> b)"
  proof (rule sorted_keys_ordinal [OF sorted])
    have "fst ` set (sortedEntries lc sp) \<subseteq> fst ` set sp"
      unfolding set_eq by auto
    then show "\<forall>a \<in> fst ` set (sortedEntries lc sp). \<forall>b \<in> fst ` set (sortedEntries lc sp).
        (lc a b \<le> 0) = (a \<le> b)"
      using agree by (meson subsetD)
  qed
  show ?thesis
  proof (intro conjI impI)
    show "sortedParams lc sp = concat (map (\<lambda>(k, v). k @ js ''='' @ v) (sortedEntries lc sp))"
      by (rule sortedParams_concat)
    show "mset (sortedEntries lc sp) = mset (filter (\<lambda>(k, v). k \<noteq> js ''signature'') sp)"
      by (rule mset_sortedEntries)
    show "sorted_wrt (\<lambda>p q. lc (fst p) (fst q) \<le> 0) (sortedEntries lc sp)"
      by (rule sorted)
    show "\<forall>a. filter (\<lambda>p. lc (fst p) a = 0) (sortedEntries lc sp) =
             filter (\<lambda>p. lc (fst p) a = 0) (filter (\<lambda>(k, v). k \<noteq> js ''signature'') sp)"
      using stable_sortedEntries [OF assms] by blast
  next
    assume "\<forall>a \<in> fst ` set sp. \<forall>b \<in> fst ` set sp. (lc a b \<le> 0) = (a \<le> b)"
    then show "ordinal_sorted (map fst (sortedEntries lc sp))"
      by (rule ordinal)
  qed
qed

theorem sortedParams_collation_order_witness:
  "consistent_comparator alphabetical_compare
   \<and> sortedParams alphabetical_compare
        [(js ''shop'', js ''q.myshopify.com''), (js ''signature'', js ''0f''),
         (js ''path_prefix'', js ''/apps/quote''), (js ''timestamp'', js ''1700000000'')]
      = js ''path_prefix=/apps/quoteshop=q.myshopify.comtimestamp=1700000000''
   \<and> ordinal_sorted (map fst (sortedEntries alphabetical_compare
        [(js ''shop'', js ''q.myshopify.com''), (js ''signature'', js ''0f''),
         (js ''path_prefix'', js ''/apps/quote''), (js ''timestamp'', js ''1700000000'')]))"
proof -
  let ?sp = "[(js ''shop'', js ''q.myshopify.com''), (js ''signature'', js ''0f''),
         (js ''path_prefix'', js ''/apps/quote''), (js ''timestamp'', js ''1700000000'')]"
  have agree: "\<forall>a \<in> fst ` set ?sp. \<forall>b \<in> fst ` set ?sp. (alphabetical_compare a b \<le> 0) = (a \<le> b)"
    by (simp add: eval_defs)
  have ser: "concat (map (\<lambda>(k, v). k @ js ''='' @ v) (sortedEntries alphabetical_compare ?sp))
      = js ''path_prefix=/apps/quoteshop=q.myshopify.comtimestamp=1700000000''"
    by (simp add: eval_defs)
  from sortedParams_collation_order [OF consistent_alphabetical, of ?sp] agree ser consistent_alphabetical
  show ?thesis by simp
qed

text \<open>
  Claim C1 as it is stated fails: under a collation that orders letters alphabetically,
  the keys \<open>B\<close> and \<open>a\<close> are serialized as \<open>a=2B=1\<close>, while \<open>B\<close> is the smaller in ordinal
  order.
\<close>

theorem sortedParams_not_ordinal:
  "sortedParams alphabetical_compare
     [(js ''B'', js ''1''), (js ''a'', js ''2''), (js ''signature'', js ''0f'')] = js ''a=2B=1''
   \<and> \<not> ordinal_sorted (map fst (sortedEntries alphabetical_compare
         [(js ''B'', js ''1''), (js ''a'', js ''2''), (js ''signature'', js ''0f'')]))"
  by (simp add: eval_defs ordinal_sorted_def)




text \<open>
  On tamper detection (claim C5), what the code guarantees. A list is signed; one
  parameter other than \<open>signature\<close> then gets a different value. The string fed to HMAC
  is then a different one, and the verifier accepts the altered list exactly when
  HMAC-SHA256 under the secret gives the altered string the digest of the original one.
  That it never does so is the collision resistance of HMAC-SHA256, which is no theorem
  about these definitions.
\<close>

lemma tampering_changes_serialization:
  assumes "secret \<noteq> []" and "k \<noteq> js ''signature''" and "v' \<noteq> v"
    and "get_param (xs @ (k, v) # ys) (js ''signature'') =
           Some (hmac_sha256_hex secret (sortedParams lc (xs @ (k, v) # ys)))"
  shows "sortedParams lc (xs @ (k, v') # ys) \<noteq> sortedParams lc (xs @ (k, v) # ys)
    \<and> verifyShopifyRequest lc (xs @ (k, v') # ys) (Some secret) =
        (hmac_sha256_hex secret (sortedParams lc (xs @ (k, v') # ys)) =
         hmac_sha256_hex secret (sortedParams lc (xs @ (k, v) # ys)))"
proof -
  have "get_param (xs @ (k, v') # ys) (js ''signature'') = get_param (xs @ (k, v) # ys) (js ''signature'')"
    using assms(2) by (simp add: get_param_def map_add_def split: option.splits)
  with assms(1,4) have "verifyShopifyRequest lc (xs @ (k, v') # ys) (Some secret) =
        (hmac_sha256_hex secret (sortedParams lc (xs @ (k, v') # ys)) =
         hmac_sha256_hex secret (sortedParams lc (xs @ (k, v) # ys)))"
    by (simp add: verifyShopifyRequest_def hmac_sha256_hex_not_empty)
  with serialization_changes [OF assms(2,3)] show ?thesis by simp
qed

lemma tampering_changes_serialization_example:
  "sortedParams alphabetical_compare
     [(js ''shop'', js ''q.myshopify.com''), (js ''timestamp'', js ''1700000001''),
      (js ''signature'', hmac_sha256_hex (js ''hush'') (js ''shop=q.myshopify.comtimestamp=1700000000''))]
   \<noteq> sortedParams alphabetical_compare
     [(js ''shop'', js ''q.myshopify.com''), (js ''timestamp'', js ''1700000000''),
      (js ''signature'', hmac_sha256_hex (js ''hush'') (js ''shop=q.myshopify.comtimestamp=1700000000''))]
   \<and> verifyShopifyRequest alphabetical_compare
     [(js ''shop'', js ''q.myshopify.com''), (js ''timestamp'', js ''1700000001''),
      (js ''signature'', hmac_sha256_hex (js ''hush'') (js ''shop=q.myshopify.comtimestamp=1700000000''))]
     (Some (js ''hush''))
     = (hmac_sha256_hex (js ''hush'') (js ''shop=q.myshopify.comtimestamp=1700000001'')
        = hmac_sha256_hex (js ''hush'') (js ''shop=q.myshopify.comtimestamp=1700000000''))"
proof -
  let ?S = "hmac_sha256_hex (js ''hush'') (js ''shop=q.myshopify.comtimestamp=1700000000'')"
  have ser: "sortedParams alphabetical_compare
       [(js ''shop'', js ''q.myshopify.com''), (js ''timestamp'', w), (js ''signature'', ?S)]
     = js ''shop=q.myshopify.comtimestamp='' @ w" for w
    by (simp add: eval_defs)
  have signed: "get_param ([(js ''shop'', js ''q.myshopify.com'')] @ (js ''timestamp'', js ''1700000000'') # [(js ''signature'', ?S)])
       (js ''signature'')
     = Some (hmac_sha256_hex (js ''hush'') (sortedParams alphabetical_compare
         ([(js ''shop'', js ''q.myshopify.com'')] @ (js ''timestamp'', js ''1700000000'') # [(js ''signature'', ?S)])))"
    using ser [of "js ''1700000000''"] by (simp add: get_param_def js_def)
  have "js ''hush'' \<noteq> []" and "js ''timestamp'' \<noteq> js ''signature''"
    and "js ''1700000001'' \<noteq> js ''1700000000''"
    by (simp_all add: js_def)
  from tampering_changes_serialization [OF this signed] show ?thesis
    using ser [of "js ''1700000000''"] ser [of "js ''1700000001''"] by (simp add: js_def)
qed

text \<open>
  Claim C6, as the code has it. Two parameter lists that are permutations of each other
  verify alike under every secret, provided that any two parameters whose names the
  collation takes for equal are the same name/value pair (so no name carries two
  different values, \<open>signature\<close> included).
\<close>

theorem verify_permutation_invariant:
  assumes cc: "consistent_comparator lc"
    and perm: "mset params = mset params'"
    and apart: "\<forall>p \<in> set params. \<forall>q \<in> set params. lc (fst p) (fst q) = 0 \<longrightarrow> p = q"
  shows "verifyShopifyRequest lc params secret = verifyShopifyRequest lc params' secret"
proof -
  have sets: "set params = set params'"
    using perm by (rule mset_eq_setD)
  have get: "get_param params name = get_param params' name" for name
    unfolding get_param_def
  proof (rule map_of_single_valued [OF sets])
    fix v1 v2 assume "(name, v1) \<in> set params" and "(name, v2) \<in> set params"
    moreover have "lc name name = 0" by (rule consistent_refl [OF cc])
    ultimately show "v1 = v2" using apart by fastforce
  qed
  let ?R = "\<lambda>p q. lc (fst p) (fst q) \<le> 0"
  have "sortedEntries lc params = sortedEntries lc params'"
  proof (rule sorted_wrt_unique [where R = ?R])
    show "sorted_wrt ?R (sortedEntries lc params)" by (rule sorted_sortedEntries [OF cc])
    show "sorted_wrt ?R (sortedEntries lc params')" by (rule sorted_sortedEntries [OF cc])
    show "mset (sortedEntries lc params) = mset (sortedEntries lc params')"
      using perm by (simp add: mset_sortedEntries)
    fix x y assume x: "x \<in> set (sortedEntries lc params)" and y: "y \<in> set (sortedEntries lc params)"
      and xy: "?R x y" and yx: "?R y x"
    have "set (sortedEntries lc params) = set (filter (\<lambda>(k, v). k \<noteq> js ''signature'') params)"
      using mset_sortedEntries [of lc params] by (rule mset_eq_setD)
    with x y have mem: "x \<in> set params" "y \<in> set params" by auto
    from xy yx have "lc (fst x) (fst y) = 0"
      using consistent_both_zero [OF cc] by simp
    with apart mem show "x = y" by blast
  qed
  then have "sortedParams lc params = sortedParams lc params'"
    by (simp add: sortedParams_def)
  then show ?thesis
    unfolding verifyShopifyRequest_def get by (simp split: option.splits)
qed

theorem verify_permutation_invariant_witness:
  "verifyShopifyRequest alphabetical_compare
     [(js ''shop'', js ''q.myshopify.com''), (js ''timestamp'', js ''1700000000''),
      (js ''signature'', hmac_sha256_hex (js ''hush'') (js ''shop=q.myshopify.comtimestamp=1700000000''))]
     (Some (js ''hush''))
   = verifyShopifyRequest alphabetical_compare
     [(js ''signature'', hmac_sha256_hex (js ''hush'') (js ''shop=q.myshopify.comtimestamp=1700000000'')),
      (js ''timestamp'', js ''1700000000''), (js ''shop'', js ''q.myshopify.com'')]
     (Some (js ''hush''))"
proof (rule verify_permutation_invariant [OF consistent_alphabetical])
  let ?S = "hmac_sha256_hex (js ''hush'') (js ''shop=q.myshopify.comtimestamp=1700000000'')"
  let ?ps = "[(js ''shop'', js ''q.myshopify.com''), (js ''timestamp'', js ''1700000000''), (js ''signature'', ?S)]"
  show "mset ?ps = mset [(js ''signature'', ?S), (js ''timestamp'', js ''1700000000''), (js ''shop'', js ''q.myshopify.com'')]"
    by simp
  show "\<forall>p \<in> set ?ps. \<forall>q \<in> set ?ps. alphabetical_compare (fst p) (fst q) = 0 \<longrightarrow> p = q"
    by (simp add: eval_defs)
qed

text \<open>
  Claim C6 as it is stated fails where a name occurs twice: \<^verbatim>\<open>get("signature")\<close> reads
  the first of two \<open>signature\<close> parameters, so the order of the two decides the result;
  and the stable sort keeps two \<open>id\<close> parameters in their input order, so the order of
  the two decides the string that is signed.
\<close>

theorem verify_depends_on_duplicate_order:
  "mset [(js ''signature'', hmac_sha256_hex (js ''hush'') []), (js ''signature'', [])]
     = mset [(js ''signature'', []), (js ''signature'', hmac_sha256_hex (js ''hush'') [])]
   \<and> verifyShopifyRequest alphabetical_compare
        [(js ''signature'', hmac_sha256_hex (js ''hush'') []), (js ''signature'', [])] (Some (js ''hush''))
   \<and> \<not> verifyShopifyRequest alphabetical_compare
        [(js ''signature'', []), (js ''signature'', hmac_sha256_hex (js ''hush'') [])] (Some (js ''hush''))
   \<and> mset [(js ''id'', js ''1''), (js ''id'', js ''2'')] = mset [(js ''id'', js ''2''), (js ''id'', js ''1'')]
   \<and> sortedParams alphabetical_compare [(js ''id'', js ''1''), (js ''id'', js ''2'')] = js ''id=1id=2''
   \<and> sortedParams alphabetical_compare [(js ''id'', js ''2''), (js ''id'', js ''1'')] = js ''id=2id=1''"
  by (simp add: verifyShopifyRequest_def get_param_def hmac_sha256_hex_not_empty eval_defs)

text \<open>
  Claim C7: the verifier returns false whenever the secret is absent or empty, whatever
  the signature is, and whenever the parameters have no \<open>signature\<close>.
\<close>

theorem verify_needs_secret_and_signature:
  "(sharedSecret = None \<or> sharedSecret = Some [] \<longrightarrow>
      \<not> verifyShopifyRequest lc params sharedSecret)
   \<and> (js ''signature'' \<notin> fst ` set params \<longrightarrow>
      \<not> verifyShopifyRequest lc params sharedSecret)"
proof (intro conjI impI)
  assume "sharedSecret = None \<or> sharedSecret = Some []"
  then show "\<not> verifyShopifyRequest lc params sharedSecret"
    by (auto simp: verifyShopifyRequest_def)
next
  assume "js ''signature'' \<notin> fst ` set params"
  then have "get_param params (js ''signature'') = None"
    by (rule get_param_None)
  then show "\<not> verifyShopifyRequest lc params sharedSecret"
    by (simp add: verifyShopifyRequest_def split: option.splits)
qed

theorem verify_needs_secret_and_signature_witness:
  "\<not> verifyShopifyRequest alphabetical_compare
       [(js ''shop'', js ''q.myshopify.com''),
        (js ''signature'', hmac_sha256_hex [] (js ''shop=q.myshopify.com''))] (Some [])
   \<and> \<not> verifyShopifyRequest alphabetical_compare
       [(js ''shop'', js ''q.myshopify.com''),
        (js ''signature'', hmac_sha256_hex [] (js ''shop=q.myshopify.com''))] None
   \<and> js ''signature'' \<notin> fst ` set [(js ''shop'', js ''q.myshopify.com'')]
   \<and> \<not> verifyShopifyRequest alphabetical_compare [(js ''shop'', js ''q.myshopify.com'')] (Some (js ''hush''))"
proof -
  have no_sig: "js ''signature'' \<notin> fst ` set [(js ''shop'', js ''q.myshopify.com'')]"
    by (simp add: js_def)
  show ?thesis
    using verify_needs_secret_and_signature [of "Some []" alphabetical_compare "[(js ''shop'', js ''q.myshopify.com''),
        (js ''signature'', hmac_sha256_hex [] (js ''shop=q.myshopify.com''))]"]
      verify_needs_secret_and_signature [of None alphabetical_compare "[(js ''shop'', js ''q.myshopify.com''),
        (js ''signature'', hmac_sha256_hex [] (js ''shop=q.myshopify.com''))]"]
      verify_needs_secret_and_signature [of "Some (js ''hush'')" alphabetical_compare "[(js ''shop'', js ''q.myshopify.com'')]"]
      no_sig
    by blast
qed

section \<open>Facts about lines, the quantity pattern and the normalizer\<close>

lemma split_at_not_Nil: "split_at sep s \<noteq> []"
  by (induction s) (auto split: list.splits)

lemma join_split_at: "join [sep] (split_at sep s) = s"
proof (induction s)
  case Nil
  show ?case by simp
next
  case (Cons c s)
  obtain piece pieces where sp: "split_at sep s = piece # pieces"
    using split_at_not_Nil [of sep s] by (cases "split_at sep s") auto
  with Cons show ?case
    by (cases pieces) auto
qed

lemma split_at_no_sep: "piece \<in> set (split_at sep s) \<Longrightarrow> sep \<notin> set piece"
  by (induction s arbitrary: piece) (auto split: if_splits list.splits)

lemma startsWith_single: "startsWith s [c] \<longleftrightarrow> (\<exists>t. s = c # t)"
  by (cases s) auto

lemma includes_str_single: "includes_str line [c] \<longleftrightarrow> c \<in> set line"
  by (induction line) (auto simp: startsWith_single)

lemma space_not_digit: "is_space c \<Longrightarrow> \<not> is_digit c"
  by (auto simp: is_space_def is_digit_def word_le_nat_alt)

lemma times_not_digit: "\<not> is_digit times_sign"
  by (simp add: is_digit_def times_sign_def)

lemma times_not_space: "\<not> is_space times_sign"
  by (simp add: is_space_def times_sign_def)

lemma match_here_iff: "match_here s = Some digits \<longleftrightarrow> matches_at s 0 digits"
proof
  assume m: "match_here s = Some digits"
  then have d: "digits = takeWhile is_digit s" and ne: "digits \<noteq> []"
    by (auto simp: match_here_def Let_def split: if_splits list.splits)
  from m obtain rest where r: "dropWhile is_space (dropWhile is_digit s) = times_sign # rest"
    by (auto simp: match_here_def Let_def split: if_splits list.splits)
  have "s = takeWhile is_digit s @ dropWhile is_digit s" by simp
  also have "dropWhile is_digit s =
      takeWhile is_space (dropWhile is_digit s) @ dropWhile is_space (dropWhile is_digit s)"
    by simp
  finally have "s = digits @ takeWhile is_space (dropWhile is_digit s) @ times_sign # rest"
    using d r by simp
  moreover have "\<forall>c \<in> set digits. is_digit c"
    unfolding d by (auto dest: set_takeWhileD)
  moreover have "\<forall>c \<in> set (takeWhile is_space (dropWhile is_digit s)). is_space c"
    by (auto dest: set_takeWhileD)
  ultimately show "matches_at s 0 digits"
    unfolding matches_at_def using ne by (metis drop0 le0)
next
  assume "matches_at s 0 digits"
  then obtain spaces rest where ne: "digits \<noteq> []" and dg: "\<forall>c \<in> set digits. is_digit c"
    and sp: "\<forall>c \<in> set spaces. is_space c" and s: "s = digits @ spaces @ times_sign # rest"
    by (auto simp: matches_at_def)
  have stop: "takeWhile is_digit (spaces @ times_sign # rest) = []"
    using sp by (cases spaces) (auto simp: space_not_digit times_not_digit)
  have tw: "takeWhile is_digit s = digits"
    unfolding s using dg stop by (simp add: takeWhile_append2)
  have "dropWhile is_digit (spaces @ times_sign # rest) = spaces @ times_sign # rest"
    using sp by (cases spaces) (auto simp: space_not_digit times_not_digit)
  then have dw: "dropWhile is_digit s = spaces @ times_sign # rest"
    unfolding s using dg by (simp add: dropWhile_append2)
  have "dropWhile is_space (spaces @ times_sign # rest) = times_sign # rest"
    using sp by (simp add: dropWhile_append2 times_not_space)
  with tw dw ne show "match_here s = Some digits"
    by (simp add: match_here_def)
qed

lemma matches_at_Nil: "\<not> matches_at [] i digits"
  by (simp add: matches_at_def)

lemma matches_at_Suc: "matches_at (c # s) (Suc i) digits \<longleftrightarrow> matches_at s i digits"
  by (simp add: matches_at_def)

lemma match_quantity_None: "match_quantity line = None \<longleftrightarrow> (\<forall>i d. \<not> matches_at line i d)"
proof (induction line)
  case Nil
  show ?case by (simp add: matches_at_Nil)
next
  case (Cons c s)
  show ?case
  proof (cases "match_here (c # s)")
    case None
    then have no0: "\<not> matches_at (c # s) 0 d" for d
      using match_here_iff [of "c # s" d] by simp
    have "(\<forall>i d. \<not> matches_at (c # s) i d) \<longleftrightarrow> (\<forall>i d. \<not> matches_at s i d)"
    proof
      assume "\<forall>i d. \<not> matches_at (c # s) i d"
      then show "\<forall>i d. \<not> matches_at s i d"
        using matches_at_Suc [of c s] by blast
    next
      assume a: "\<forall>i d. \<not> matches_at s i d"
      show "\<forall>i d. \<not> matches_at (c # s) i d"
      proof (intro allI)
        fix i d show "\<not> matches_at (c # s) i d"
          using no0 a matches_at_Suc [of c s] by (cases i) auto
      qed
    qed
    with None Cons show ?thesis by simp
  next
    case (Some ds)
    then have "matches_at (c # s) 0 ds"
      by (simp add: match_here_iff)
    with Some show ?thesis by auto
  qed
qed

lemma match_quantity_Some:
  "match_quantity line = Some digits \<longleftrightarrow>
     (\<exists>i. matches_at line i digits \<and> (\<forall>j < i. \<forall>d. \<not> matches_at line j d))"
proof (induction line)
  case Nil
  show ?case by (simp add: matches_at_Nil)
next
  case (Cons c s)
  show ?case
  proof (cases "match_here (c # s)")
    case None
    then have no0: "\<not> matches_at (c # s) 0 d" for d
      using match_here_iff [of "c # s" d] by simp
    have "(\<exists>i. matches_at (c # s) i digits \<and> (\<forall>j < i. \<forall>d. \<not> matches_at (c # s) j d))
      \<longleftrightarrow> (\<exists>i. matches_at s i digits \<and> (\<forall>j < i. \<forall>d. \<not> matches_at s j d))"
    proof
      assume "\<exists>i. matches_at (c # s) i digits \<and> (\<forall>j < i. \<forall>d. \<not> matches_at (c # s) j d)"
      then obtain i where i: "matches_at (c # s) i digits"
        and least: "\<forall>j < i. \<forall>d. \<not> matches_at (c # s) j d" by blast
      from i no0 obtain i' where i': "i = Suc i'" by (cases i) auto
      have "matches_at s i' digits" using i i' by (simp add: matches_at_Suc)
      moreover have "\<forall>j < i'. \<forall>d. \<not> matches_at s j d"
        using least i' matches_at_Suc [of c s] by auto
      ultimately show "\<exists>i. matches_at s i digits \<and> (\<forall>j < i. \<forall>d. \<not> matches_at s j d)"
        by blast
    next
      assume "\<exists>i. matches_at s i digits \<and> (\<forall>j < i. \<forall>d. \<not> matches_at s j d)"
      then obtain i where i: "matches_at s i digits"
        and least: "\<forall>j < i. \<forall>d. \<not> matches_at s j d" by blast
      have "matches_at (c # s) (Suc i) digits" using i by (simp add: matches_at_Suc)
      moreover have "\<forall>j < Suc i. \<forall>d. \<not> matches_at (c # s) j d"
      proof (intro allI impI)
        fix j d assume "j < Suc i"
        then show "\<not> matches_at (c # s) j d"
          using no0 least matches_at_Suc [of c s] by (cases j) auto
      qed
      ultimately show "\<exists>i. matches_at (c # s) i digits \<and> (\<forall>j < i. \<forall>d. \<not> matches_at (c # s) j d)"
        by blast
    qed
    with None Cons show ?thesis by simp
  next
    case (Some ds)
    then have m0: "matches_at (c # s) 0 ds"
      by (simp add: match_here_iff)
    have "(\<exists>i. matches_at (c # s) i digits \<and> (\<forall>j < i. \<forall>d. \<not> matches_at (c # s) j d))
      \<longleftrightarrow> ds = digits"
    proof
      assume "\<exists>i. matches_at (c # s) i digits \<and> (\<forall>j < i. \<forall>d. \<not> matches_at (c # s) j d)"
      then obtain i where i: "matches_at (c # s) i digits"
        and least: "\<forall>j < i. \<forall>d. \<not> matches_at (c # s) j d" by blast
      from least m0 have "i = 0" by (cases i) auto
      with i have "match_here (c # s) = Some digits" by (simp add: match_here_iff)
      with Some show "ds = digits" by simp
    next
      assume "ds = digits"
      with m0 show "\<exists>i. matches_at (c # s) i digits \<and> (\<forall>j < i. \<forall>d. \<not> matches_at (c # s) j d)"
        by (intro exI [of _ 0]) simp
    qed
    with Some show ?thesis by simp
  qed
qed

lemma foldl_decimal_value:
  "foldl (\<lambda>n c. 10 * n + unat (c - 0x30)) a digits = a * 10 ^ length digits + decimal_value digits"
  by (induction digits arbitrary: a) (simp_all add: algebra_simps)

lemma parseInt_decimal_value: "parseInt digits = to_double (decimal_value digits)"
  by (simp add: parseInt_def foldl_decimal_value)

lemma to_double_exact:
  assumes "n \<le> 2 ^ 53"
  shows "to_double n = Finite (real n)"
proof (cases "n = 2 ^ 53")
  case True
  then show ?thesis
    by (simp add: to_double_def compute_floorlog Let_def)
next
  case False
  with assms have "n < 2 ^ 53" by simp
  then have "floorlog 2 n \<le> 53"
    by (intro floorlog_leI) simp_all
  then have e: "floorlog 2 n - 53 = 0" by simp
  have "n < 2 ^ 1024"
    using \<open>n < 2 ^ 53\<close> by (rule less_trans) simp
  then show ?thesis
    by (simp add: to_double_def e)
qed

text \<open>
  Beyond \<open>2\<^sup>5\<^sup>3\<close> the Number value is \<^verbatim>\<open>Infinity\<close>, or a multiple \<open>m * 2\<^sup>e\<close> of the unit in the
  last place with a significand \<open>m\<close> of at most \<open>2\<^sup>5\<^sup>3\<close> that is no further than half a unit
  from \<open>n\<close>; it is \<^verbatim>\<open>Infinity\<close> only where \<open>n\<close> is no further than that from \<open>2\<^sup>1\<^sup>0\<^sup>2\<^sup>4\<close> or
  above it.
\<close>

lemma to_double_nearest:
  fixes n :: nat
  defines "e \<equiv> floorlog 2 n - 53"
  shows "to_double n = Infinity False \<and> 2 * 2 ^ 1024 \<le> 2 * n + 2 ^ e
    \<or> (\<exists>m. to_double n = Finite (real (m * 2 ^ e)) \<and> m \<le> 2 ^ 53
           \<and> 2 * n \<le> 2 * (m * 2 ^ e) + 2 ^ e \<and> 2 * (m * 2 ^ e) \<le> 2 * n + 2 ^ e)"
proof -
  define q where "q = n div 2 ^ e"
  define r where "r = n mod 2 ^ e"
  define m where "m = (if 2 * r < 2 ^ e \<or> (2 * r = 2 ^ e \<and> even q) then q else q + 1)"
  have n: "n = q * 2 ^ e + r"
    unfolding q_def r_def by (rule div_mult_mod_eq [symmetric])
  have r: "r < 2 ^ e"
    by (simp add: r_def)
  have td: "to_double n = (if 2 ^ 1024 \<le> m * 2 ^ e then Infinity False else Finite (real (m * 2 ^ e)))"
    by (simp add: to_double_def Let_def e_def q_def r_def m_def)
  have up: "2 * n \<le> 2 * (m * 2 ^ e) + 2 ^ e"
    using r by (auto simp: n m_def algebra_simps)
  have down: "2 * (m * 2 ^ e) \<le> 2 * n + 2 ^ e"
    by (auto simp: n m_def algebra_simps)
  have q: "q < 2 ^ 53"
  proof (cases "n = 0")
    case True
    then show ?thesis by (simp add: q_def)
  next
    case False
    then have "n < 2 ^ floorlog 2 n"
      using floorlog_bounds [of n 2] by simp
    also have "floorlog 2 n \<le> 53 + e"
      by (simp add: e_def)
    then have "(2::nat) ^ floorlog 2 n \<le> 2 ^ (53 + e)"
      by (intro power_increasing) simp_all
    finally have "n < 2 ^ 53 * 2 ^ e"
      by (simp add: power_add)
    then show ?thesis
      by (simp add: q_def less_mult_imp_div_less)
  qed
  then have m: "m \<le> 2 ^ 53"
    by (simp add: m_def)
  show ?thesis
  proof (cases "(2::nat) ^ 1024 \<le> m * 2 ^ e")
    case True
    with down have "2 * 2 ^ 1024 \<le> 2 * n + 2 ^ e" by linarith
    with True td show ?thesis by simp
  next
    case False
    with td m up down show ?thesis by auto
  qed
qed

lemma to_double_overflow:
  assumes "2 ^ 1024 \<le> n"
  shows "to_double n = Infinity False"
proof -
  define e where "e = floorlog 2 n - 53"
  define q where "q = n div 2 ^ e"
  define r where "r = n mod 2 ^ e"
  define m where "m = (if 2 * r < 2 ^ e \<or> (2 * r = 2 ^ e \<and> even q) then q else q + 1)"
  from assms have pos: "0 < n"
    by (simp add: less_le_trans [of 0 "2 ^ 1024"])
  then have bounds: "2 ^ (floorlog 2 n - 1) \<le> n" "n < 2 ^ floorlog 2 n"
    using floorlog_bounds [of n 2] by simp_all
  from assms bounds(2) have "(2::nat) ^ 1024 < 2 ^ floorlog 2 n"
    by (rule le_less_trans)
  then have long: "1024 < floorlog 2 n"
    by (rule power_less_imp_less_exp [rotated]) simp
  then have e: "floorlog 2 n - 1 = 52 + e" "1024 \<le> 52 + e"
    by (simp_all add: e_def)
  have "(2::nat) ^ 52 * 2 ^ e = 2 ^ (floorlog 2 n - 1)"
    unfolding e(1) by (rule power_add [symmetric])
  with bounds(1) have "2 ^ 52 * 2 ^ e \<le> n"
    by (simp only:)
  then have "2 ^ 52 \<le> q"
    by (simp add: q_def less_eq_div_iff_mult_less_eq)
  moreover have "q \<le> m"
    by (simp add: m_def)
  ultimately have significand: "2 ^ 52 \<le> m"
    by (rule order_trans)
  have "(2::nat) ^ 1024 \<le> 2 ^ (52 + e)"
    using e(2) by (intro power_increasing) simp_all
  also have "\<dots> = 2 ^ 52 * 2 ^ e"
    by (rule power_add)
  also have "\<dots> \<le> m * 2 ^ e"
    using significand by (rule mult_le_mono1)
  finally have overflow: "2 ^ 1024 \<le> m * 2 ^ e" .
  have "to_double n = (if 2 ^ 1024 \<le> m * 2 ^ e then Infinity False else Finite (real (m * 2 ^ e)))"
    by (simp add: to_double_def Let_def e_def q_def r_def m_def)
  with overflow show ?thesis
    by (simp only: if_True)
qed

lemma quantity_of_line_computed:
  "quantity_of_line line (case match_quantity line of Some digits \<Rightarrow> parseInt digits | None \<Rightarrow> Finite 1)"
proof (cases "match_quantity line")
  case None
  then have "\<forall>i d. \<not> matches_at line i d"
    by (simp add: match_quantity_None)
  with None show ?thesis
    by (simp add: quantity_of_line_def)
next
  case (Some digits)
  then show ?thesis
    unfolding quantity_of_line_def parseInt_decimal_value
    using match_quantity_Some [of line digits] by auto
qed

lemma parseCartText_string:
  "parseCartText (JString s) = Inr (map line_item_of (item_lines s))"
proof (cases "s = []")
  case True
  then show ?thesis
    by (simp add: parseCartText_def item_lines_def)
next
  case False
  then show ?thesis
    by (simp add: parseCartText_def item_lines_def includes_str_single)
qed

lemmas normalizer_defs = parseOrderData_def read_fields_def initial_order_data_def structured_items_def set_lineItems_def
  map_line_items_def get_property_def JSON_parse_sample_def parseCartText_def line_item_of_def
  match_here_def is_digit_def is_space_def parseInt_def to_double_exact sample_cart_def
  times_sign_def dollar_sign_def line_feed_def js_def

lemma parseCartText_free_text:
  "\<not> truthy c \<or> (\<exists>s. c = JString s) \<Longrightarrow> parseCartText c = Inr (free_text_items c)"
proof (cases "truthy c")
  case True
  assume "\<not> truthy c \<or> (\<exists>s. c = JString s)"
  with True obtain s where "c = JString s" by blast
  then show ?thesis
    by (simp add: parseCartText_string free_text_items_def)
next
  case False
  then show ?thesis
    by (cases c) (auto simp: parseCartText_def free_text_items_def item_lines_def)
qed

lemma parseCartText_throws:
  "truthy c \<Longrightarrow> \<forall>s. c \<noteq> JString s \<Longrightarrow> parseCartText c = Inl TypeError"
  by (cases c) (auto simp: parseCartText_def)

lemma parseCartText_returns_iff:
  "(\<exists>items. parseCartText c = Inr items) \<longleftrightarrow> \<not> truthy c \<or> (\<exists>s. c = JString s)"
  using parseCartText_free_text [of c] parseCartText_throws [of c] by (metis Inl_Inr_False)

lemma initial_order_data_simps:
  "cart (initial_order_data payload) = property payload (js ''quote[Cart]'')"
  "cart_line_items (initial_order_data payload) = property payload (js ''quote[cart_line_items]'')"
  "lineItems (initial_order_data payload) = None"
  by (simp_all add: initial_order_data_def)

lemma map_items_throws:
  "(\<exists>e. map_items items = Inl e) \<longleftrightarrow> JNull \<in> set items \<or> JUndefined \<in> set items"
  by (induction items) (auto simp: get_property_def split: sum.splits)

lemma map_line_items_throws:
  "(\<exists>e. map_line_items parsed = Inl e) \<longleftrightarrow>
     (\<forall>items. parsed \<noteq> JArray items)
     \<or> (\<exists>items. parsed = JArray items \<and> (JNull \<in> set items \<or> JUndefined \<in> set items))"
  using map_items_throws by (cases parsed) (auto simp: map_line_items_def)

lemma parseOrderData_nullish:
  "payload = JUndefined \<or> payload = JNull \<Longrightarrow> parseOrderData JSON_parse payload = Inl TypeError"
  by (auto simp: parseOrderData_def read_fields_def)

lemma parseOrderData_object:
  assumes "payload \<noteq> JUndefined" and "payload \<noteq> JNull"
  shows "parseOrderData JSON_parse payload =
      (if truthy (property payload (js ''quote[cart_line_items]'')) then
         (case structured_items JSON_parse (property payload (js ''quote[cart_line_items]'')) of
            Inr items \<Rightarrow> Inr ((initial_order_data payload)\<lparr>lineItems := Some items\<rparr>)
          | Inl error \<Rightarrow>
              set_lineItems (initial_order_data payload) (parseCartText (property payload (js ''quote[Cart]''))))
       else if truthy (property payload (js ''quote[Cart]'')) then
         set_lineItems (initial_order_data payload) (parseCartText (property payload (js ''quote[Cart]'')))
       else Inr (initial_order_data payload))"
  using assms
  by (simp add: parseOrderData_def read_fields_def initial_order_data_simps split: sum.splits)

lemma set_lineItems_returns_iff:
  "(\<exists>orderData. set_lineItems od r = Inr orderData) \<longleftrightarrow> (\<exists>items. r = Inr items)"
  by (cases r) (simp_all add: set_lineItems_def)

lemma parseOrderData_only_TypeError:
  "parseOrderData JSON_parse payload = Inl e \<Longrightarrow> e = TypeError"
proof (cases "payload = JUndefined \<or> payload = JNull")
  case True
  assume "parseOrderData JSON_parse payload = Inl e"
  with True show ?thesis
    using parseOrderData_nullish [of payload JSON_parse] by auto
next
  case False
  assume raised: "parseOrderData JSON_parse payload = Inl e"
  let ?cart = "property payload (js ''quote[Cart]'')"
  from False have ne: "payload \<noteq> JUndefined" "payload \<noteq> JNull" by simp_all
  have "set_lineItems (initial_order_data payload) (parseCartText ?cart) = Inl e"
    using raised unfolding parseOrderData_object [OF ne]
    by (auto split: if_splits sum.splits)
  then have "parseCartText ?cart = Inl e"
    by (cases "parseCartText ?cart") (simp_all add: set_lineItems_def)
  then show ?thesis
    using parseCartText_free_text [of ?cart] parseCartText_throws [of ?cart] by force
qed

lemma map_of_fold_update:
  assumes "\<And>x. map_of al name = Some x \<Longrightarrow> \<exists>s. x = JString s"
    and "map_of (fold (\<lambda>(k, v). AList.update k (JString v)) entries al) name = Some x"
  shows "\<exists>s. x = JString s"
  using assms
proof (induction entries arbitrary: al)
  case Nil
  then show ?case by simp
next
  case (Cons entry entries)
  obtain k v where entry: "entry = (k, v)" by (cases entry)
  show ?case
  proof (rule Cons.IH [of "AList.update k (JString v) al"])
    show "\<exists>s. y = JString s" if "map_of (AList.update k (JString v) al) name = Some y" for y
      using that Cons.prems(1) [of y] by (auto simp: update_conv' split: if_splits)
    show "map_of (fold (\<lambda>(k, v). AList.update k (JString v)) entries (AList.update k (JString v) al)) name
        = Some x"
      using Cons.prems(2) by (simp add: entry)
  qed
qed

lemma property_fromEntries:
  "property (fromEntries entries) name = JUndefined
   \<or> (\<exists>s. property (fromEntries entries) name = JString s)"
proof (cases "map_of (fold (\<lambda>(k, v). AList.update k (JString v)) entries []) name")
  case None
  then show ?thesis by (simp add: fromEntries_def)
next
  case (Some x)
  then have "\<exists>s. x = JString s"
    by (intro map_of_fold_update [of "[]" name entries x]) simp_all
  with Some show ?thesis by (auto simp: fromEntries_def)
qed

text \<open>
  Path (1) of the specification on its example: the structured line items are used as
  they are.
\<close>

lemma structured_items_example:
  "parseOrderData JSON_parse_sample
     (JObject [(js ''quote[cart_line_items]'',
        JString (js ''[{\"variantId\":\"gid://shopify/ProductVariant/123\",\"quantity\":3}]''))])
   = Inr ((initial_order_data (JObject [(js ''quote[cart_line_items]'',
        JString (js ''[{\"variantId\":\"gid://shopify/ProductVariant/123\",\"quantity\":3}]''))]))
           \<lparr>lineItems := Some [\<lparr>variantId = JString (js ''gid://shopify/ProductVariant/123''),
                                quantity = JNumber (Finite 3)\<rparr>]\<rparr>)"
  by (simp add: normalizer_defs)

section \<open>The claims about the normalizer\<close>

text \<open>
  Claim C8, as the code has it: free-text line items. For every cart description \<open>s\<close>,
  the lines of \<open>s\<close> are the pieces between its line feeds; \<open>parseCartText\<close> returns one
  item for each line that holds both the multiplication sign and the dollar sign, in
  order; the \<open>variantId\<close> of each is the fallback identifier, and its quantity is the
  Number value for the integer matched (the decimal value of the digits of the first
  match of digits, optional spaces and the multiplication sign in its line), or 1 when
  the line has no such match. The Number value for an integer \<open>k\<close> is \<open>k\<close> itself up to
  \<open>2\<^sup>5\<^sup>3\<close>; beyond, it is a double no further than half a unit in the last place from \<open>k\<close>,
  or \<^verbatim>\<open>Infinity\<close>, which it is from \<open>2\<^sup>1\<^sup>0\<^sup>2\<^sup>4\<close> on. On the cart description of the
  specification's example \<open>parseCartText\<close> returns two items, of quantities 2 and 1.
\<close>

theorem parseCartText_item_lines:
  "join [line_feed] (split_at line_feed s) = s
   \<and> (\<forall>line \<in> set (split_at line_feed s). line_feed \<notin> set line)
   \<and> (\<exists>items. parseCartText (JString s) = Inr items
        \<and> length items = length (item_lines s)
        \<and> (\<forall>n < length items.
              variantId (items ! n) = JString fallback_variant
              \<and> (\<exists>q. quantity (items ! n) = JNumber q \<and> quantity_of_line (item_lines s ! n) q)))
   \<and> (k \<le> 2 ^ 53 \<longrightarrow> to_double k = Finite (real k))
   \<and> (2 ^ 1024 \<le> k \<longrightarrow> to_double k = Infinity False)
   \<and> (to_double k = Infinity False \<and> 2 * 2 ^ 1024 \<le> 2 * k + 2 ^ (floorlog 2 k - 53)
       \<or> (\<exists>m. to_double k = Finite (real (m * 2 ^ (floorlog 2 k - 53))) \<and> m \<le> 2 ^ 53
             \<and> 2 * k \<le> 2 * (m * 2 ^ (floorlog 2 k - 53)) + 2 ^ (floorlog 2 k - 53)
             \<and> 2 * (m * 2 ^ (floorlog 2 k - 53)) \<le> 2 * k + 2 ^ (floorlog 2 k - 53)))
   \<and> parseCartText (JString sample_cart) =
        Inr [\<lparr>variantId = JString fallback_variant, quantity = JNumber (Finite 2)\<rparr>,
             \<lparr>variantId = JString fallback_variant, quantity = JNumber (Finite 1)\<rparr>]"
proof (intro conjI impI)
  show "join [line_feed] (split_at line_feed s) = s"
    by (rule join_split_at)
  show "\<forall>line \<in> set (split_at line_feed s). line_feed \<notin> set line"
    using split_at_no_sep by blast
  show "\<exists>items. parseCartText (JString s) = Inr items
        \<and> length items = length (item_lines s)
        \<and> (\<forall>n < length items.
              variantId (items ! n) = JString fallback_variant
              \<and> (\<exists>q. quantity (items ! n) = JNumber q \<and> quantity_of_line (item_lines s ! n) q))"
  proof -
    let ?items = "map line_item_of (item_lines s)"
    have "parseCartText (JString s) = Inr ?items"
      by (rule parseCartText_string)
    moreover have "length ?items = length (item_lines s)"
      by simp
    moreover have "variantId (?items ! n) = JString fallback_variant
        \<and> (\<exists>q. quantity (?items ! n) = JNumber q \<and> quantity_of_line (item_lines s ! n) q)"
      if "n < length ?items" for n
    proof -
      from that have n: "n < length (item_lines s)" by simp
      have "quantity_of_line (item_lines s ! n)
          (case match_quantity (item_lines s ! n) of
             Some digits \<Rightarrow> parseInt digits | None \<Rightarrow> Finite 1)"
        by (rule quantity_of_line_computed)
      with n show ?thesis by (simp add: line_item_of_def)
    qed
    ultimately show ?thesis by blast
  qed
  show "to_double k = Finite (real k)" if "k \<le> 2 ^ 53"
    using that by (rule to_double_exact)
  show "to_double k = Infinity False" if "2 ^ 1024 \<le> k"
    using that by (rule to_double_overflow)
  show "to_double k = Infinity False \<and> 2 * 2 ^ 1024 \<le> 2 * k + 2 ^ (floorlog 2 k - 53)
       \<or> (\<exists>m. to_double k = Finite (real (m * 2 ^ (floorlog 2 k - 53))) \<and> m \<le> 2 ^ 53
             \<and> 2 * k \<le> 2 * (m * 2 ^ (floorlog 2 k - 53)) + 2 ^ (floorlog 2 k - 53)
             \<and> 2 * (m * 2 ^ (floorlog 2 k - 53)) \<le> 2 * k + 2 ^ (floorlog 2 k - 53))"
    by (rule to_double_nearest)
  show "parseCartText (JString sample_cart) =
        Inr [\<lparr>variantId = JString fallback_variant, quantity = JNumber (Finite 2)\<rparr>,
             \<lparr>variantId = JString fallback_variant, quantity = JNumber (Finite 1)\<rparr>]"
    by (simp add: parseCartText_def sample_cart_def js_def line_feed_def times_sign_def dollar_sign_def
        line_item_of_def match_here_def is_digit_def is_space_def parseInt_def to_double_exact)
qed

theorem parseCartText_item_lines_witness:
  "item_lines sample_cart =
     [js ''2 '' @ [times_sign] @ js '' Widget $10.00'', js ''1 '' @ [times_sign] @ js '' Gadget $5.00'']
   \<and> quantity_of_line (js ''2 '' @ [times_sign] @ js '' Widget $10.00'') (Finite 2)
   \<and> quantity_of_line (js ''1 '' @ [times_sign] @ js '' Gadget $5.00'') (Finite 1)
   \<and> to_double 2 = Finite 2"
proof -
  note claim = parseCartText_item_lines [where s = sample_cart and k = 2]
  have lines: "item_lines sample_cart =
     [js ''2 '' @ [times_sign] @ js '' Widget $10.00'', js ''1 '' @ [times_sign] @ js '' Gadget $5.00'']"
    by (simp add: item_lines_def sample_cart_def js_def line_feed_def times_sign_def dollar_sign_def)
  from claim obtain items where
    "parseCartText (JString sample_cart) = Inr items"
    and "\<forall>n < length items. \<exists>q. quantity (items ! n) = JNumber q
           \<and> quantity_of_line (item_lines sample_cart ! n) q"
    and "parseCartText (JString sample_cart) =
        Inr [\<lparr>variantId = JString fallback_variant, quantity = JNumber (Finite 2)\<rparr>,
             \<lparr>variantId = JString fallback_variant, quantity = JNumber (Finite 1)\<rparr>]"
    by blast
  then have q: "\<forall>n < 2. \<exists>q. quantity ([\<lparr>variantId = JString fallback_variant, quantity = JNumber (Finite 2)\<rparr>,
             \<lparr>variantId = JString fallback_variant, quantity = JNumber (Finite 1)\<rparr>] ! n) = JNumber q
           \<and> quantity_of_line (item_lines sample_cart ! n) q"
    by auto
  from claim have "(2::nat) \<le> 2 ^ 53 \<longrightarrow> to_double 2 = Finite (real (2::nat))"
    by (elim conjE)
  then have exact: "to_double 2 = Finite 2"
    by simp
  from q [rule_format, of 0] q [rule_format, of 1] lines exact show ?thesis
    by simp
qed

text \<open>
  Claim C8 as it is stated, that the quantity is the integer matched, fails on the cart
  line \<^verbatim>\<open>9007199254740993 \<close>\<open>\<times>\<close>\<^verbatim>\<open> Widget $10.00\<close>: the integer matched is
  \<open>2\<^sup>5\<^sup>3 + 1\<close>, which no double holds, and the quantity is \<open>2\<^sup>5\<^sup>3\<close>.
\<close>

theorem parseCartText_rounds_large_quantity:
  "match_quantity (js ''9007199254740993 '' @ [times_sign] @ js '' Widget $10.00'')
     = Some (js ''9007199254740993'')
   \<and> decimal_value (js ''9007199254740993'') = 9007199254740993
   \<and> parseCartText (JString (js ''9007199254740993 '' @ [times_sign] @ js '' Widget $10.00''))
     = Inr [\<lparr>variantId = JString fallback_variant, quantity = JNumber (Finite 9007199254740992)\<rparr>]"
  by (simp add: parseCartText_def js_def line_feed_def times_sign_def dollar_sign_def
      line_item_of_def match_here_def is_digit_def is_space_def parseInt_def to_double_def
      compute_floorlog Let_def)

text \<open>
  Claim C3, as the code has it. \<open>parseOrderData\<close> returns an order request exactly when
  the payload is neither \<^verbatim>\<open>null\<close> nor \<^verbatim>\<open>undefined\<close> and, unless the structured line items
  were parsed and mapped, its \<^verbatim>\<open>quote[Cart]\<close> is falsy or a string; in every other case it
  throws a \<open>TypeError\<close>, and to a verified request whose body reads as such a payload the
  handler answers 500. It returns on every form-encoded payload and on every text.
  Where \<^verbatim>\<open>JSON.parse\<close> throws on a truthy structured field and \<^verbatim>\<open>quote[Cart]\<close> is falsy or
  a string, the line items are those of the free-text cart description.
\<close>

theorem parseOrderData_returns_iff:
  "((\<exists>orderData. parseOrderData JSON_parse payload = Inr orderData) \<longleftrightarrow>
      payload \<noteq> JUndefined \<and> payload \<noteq> JNull \<and>
      ((truthy (property payload (js ''quote[cart_line_items]'')) \<and>
        (\<exists>items. structured_items JSON_parse (property payload (js ''quote[cart_line_items]'')) = Inr items))
       \<or> \<not> truthy (property payload (js ''quote[Cart]''))
       \<or> (\<exists>s. property payload (js ''quote[Cart]'') = JString s)))
   \<and> ((\<exists>orderData. parseOrderData JSON_parse payload = Inr orderData)
       \<or> parseOrderData JSON_parse payload = Inl TypeError)
   \<and> (verifyShopifyRequest lc (searchParams req) sharedSecret \<and>
        read_payload req = Inr payload \<and>
        (\<forall>orderData. parseOrderData JSON_parse payload \<noteq> Inr orderData)
      \<longrightarrow> action lc JSON_parse api sharedSecret req = Inr \<lparr>status = 500, body = Failed TypeError\<rparr>)
   \<and> (\<exists>orderData. parseOrderData JSON_parse (fromEntries entries) = Inr orderData)
   \<and> (\<exists>orderData. parseOrderData JSON_parse (JString str) = Inr orderData)
   \<and> (payload \<noteq> JUndefined \<and> payload \<noteq> JNull \<and>
        truthy (property payload (js ''quote[cart_line_items]'')) \<and>
        (\<exists>e. JSON_parse (property payload (js ''quote[cart_line_items]'')) = Inl e) \<and>
        (\<not> truthy (property payload (js ''quote[Cart]''))
           \<or> (\<exists>s. property payload (js ''quote[Cart]'') = JString s))
      \<longrightarrow> parseOrderData JSON_parse payload =
            Inr ((initial_order_data payload)
                  \<lparr>lineItems := Some (free_text_items (property payload (js ''quote[Cart]'')))\<rparr>))"
proof -
  have returns_iff: "(\<exists>orderData. parseOrderData JSON_parse p = Inr orderData) \<longleftrightarrow>
      p \<noteq> JUndefined \<and> p \<noteq> JNull \<and>
      ((truthy (property p (js ''quote[cart_line_items]'')) \<and>
        (\<exists>items. structured_items JSON_parse (property p (js ''quote[cart_line_items]'')) = Inr items))
       \<or> \<not> truthy (property p (js ''quote[Cart]''))
       \<or> (\<exists>s. property p (js ''quote[Cart]'') = JString s))" for p
  proof (cases "p = JUndefined \<or> p = JNull")
    case True
    then show ?thesis
      using parseOrderData_nullish [of p JSON_parse] by auto
  next
    case False
    let ?cli = "property p (js ''quote[cart_line_items]'')"
    let ?cart = "property p (js ''quote[Cart]'')"
    from False have ne: "p \<noteq> JUndefined" "p \<noteq> JNull" by simp_all
    note p = parseOrderData_object [OF ne, of JSON_parse]
    have fallback: "(\<exists>orderData. set_lineItems (initial_order_data p) (parseCartText ?cart) = Inr orderData)
        \<longleftrightarrow> \<not> truthy ?cart \<or> (\<exists>s. ?cart = JString s)"
      by (simp add: set_lineItems_returns_iff parseCartText_returns_iff)
    show ?thesis
    proof (cases "truthy ?cli")
      case True
      show ?thesis
      proof (cases "structured_items JSON_parse ?cli")
        case (Inl e)
        with True p fallback ne show ?thesis by simp
      next
        case (Inr items)
        with True p ne show ?thesis by simp
      qed
    next
      case False
      show ?thesis
      proof (cases "truthy ?cart")
        case True
        with False p fallback ne show ?thesis by simp
      next
        case nc: False
        with False p ne show ?thesis by simp
      qed
    qed
  qed
  have raises: "(\<exists>orderData. parseOrderData JSON_parse payload = Inr orderData)
       \<or> parseOrderData JSON_parse payload = Inl TypeError"
  proof (cases "parseOrderData JSON_parse payload")
    case (Inl e)
    then show ?thesis
      using parseOrderData_only_TypeError [of JSON_parse payload e] by simp
  next
    case (Inr orderData)
    then show ?thesis by simp
  qed
  have answer: "action lc JSON_parse api sharedSecret req = Inr \<lparr>status = 500, body = Failed TypeError\<rparr>"
    if "verifyShopifyRequest lc (searchParams req) sharedSecret \<and>
        read_payload req = Inr payload \<and>
        (\<forall>orderData. parseOrderData JSON_parse payload \<noteq> Inr orderData)"
  proof -
    from that raises have "parseOrderData JSON_parse payload = Inl TypeError"
      by blast
    with that show ?thesis
      by (simp add: action_def process_payload_def has_message_def)
  qed
  have form: "\<exists>orderData. parseOrderData JSON_parse (fromEntries entries) = Inr orderData"
  proof -
    have "\<not> truthy (property (fromEntries entries) (js ''quote[Cart]''))
        \<or> (\<exists>s. property (fromEntries entries) (js ''quote[Cart]'') = JString s)"
      using property_fromEntries [of entries "js ''quote[Cart]''"] by auto
    moreover have "fromEntries entries \<noteq> JUndefined" "fromEntries entries \<noteq> JNull"
      by (simp_all add: fromEntries_def)
    ultimately show ?thesis
      unfolding returns_iff by blast
  qed
  have text_payload: "\<exists>orderData. parseOrderData JSON_parse (JString str) = Inr orderData"
    unfolding returns_iff by simp
  have falls_back: "parseOrderData JSON_parse payload =
      Inr ((initial_order_data payload)
            \<lparr>lineItems := Some (free_text_items (property payload (js ''quote[Cart]'')))\<rparr>)"
    if a: "payload \<noteq> JUndefined \<and> payload \<noteq> JNull \<and>
        truthy (property payload (js ''quote[cart_line_items]'')) \<and>
        (\<exists>e. JSON_parse (property payload (js ''quote[cart_line_items]'')) = Inl e) \<and>
        (\<not> truthy (property payload (js ''quote[Cart]''))
           \<or> (\<exists>s. property payload (js ''quote[Cart]'') = JString s))"
  proof -
    let ?cli = "property payload (js ''quote[cart_line_items]'')"
    let ?cart = "property payload (js ''quote[Cart]'')"
    from a have ne: "payload \<noteq> JUndefined" "payload \<noteq> JNull" by simp_all
    from a obtain e where "structured_items JSON_parse ?cli = Inl e"
      by (auto simp: structured_items_def)
    moreover have "parseCartText ?cart = Inr (free_text_items ?cart)"
      using a by (intro parseCartText_free_text) simp
    ultimately show ?thesis
      using a by (simp add: parseOrderData_object [OF ne] set_lineItems_def)
  qed
  show ?thesis
  proof (intro conjI impI)
    show "(\<exists>orderData. parseOrderData JSON_parse payload = Inr orderData) \<longleftrightarrow>
      payload \<noteq> JUndefined \<and> payload \<noteq> JNull \<and>
      ((truthy (property payload (js ''quote[cart_line_items]'')) \<and>
        (\<exists>items. structured_items JSON_parse (property payload (js ''quote[cart_line_items]'')) = Inr items))
       \<or> \<not> truthy (property payload (js ''quote[Cart]''))
       \<or> (\<exists>s. property payload (js ''quote[Cart]'') = JString s))"
      by (rule returns_iff)
    show "(\<exists>orderData. parseOrderData JSON_parse payload = Inr orderData)
       \<or> parseOrderData JSON_parse payload = Inl TypeError"
      by (rule raises)
    show "\<exists>orderData. parseOrderData JSON_parse (fromEntries entries) = Inr orderData"
      by (rule form)
    show "\<exists>orderData. parseOrderData JSON_parse (JString str) = Inr orderData"
      by (rule text_payload)
  next
    assume "verifyShopifyRequest lc (searchParams req) sharedSecret \<and>
        read_payload req = Inr payload \<and>
        (\<forall>orderData. parseOrderData JSON_parse payload \<noteq> Inr orderData)"
    then show "action lc JSON_parse api sharedSecret req = Inr \<lparr>status = 500, body = Failed TypeError\<rparr>"
      by (rule answer)
  next
    assume "payload \<noteq> JUndefined \<and> payload \<noteq> JNull \<and>
        truthy (property payload (js ''quote[cart_line_items]'')) \<and>
        (\<exists>e. JSON_parse (property payload (js ''quote[cart_line_items]'')) = Inl e) \<and>
        (\<not> truthy (property payload (js ''quote[Cart]''))
           \<or> (\<exists>s. property payload (js ''quote[Cart]'') = JString s))"
    then show "parseOrderData JSON_parse payload =
      Inr ((initial_order_data payload)
            \<lparr>lineItems := Some (free_text_items (property payload (js ''quote[Cart]'')))\<rparr>)"
      by (rule falls_back)
  qed
qed

theorem parseOrderData_returns_iff_witness:
  "parseOrderData JSON_parse_sample
     (JObject [(js ''quote[email]'', JString (js ''ann@example.com'')),
               (js ''quote[cart_line_items]'', JString (js ''{oops'')),
               (js ''quote[Cart]'', JString sample_cart)])
   = Inr \<lparr>email = JString (js ''ann@example.com''), full_name = JUndefined,
           shipping_address1 = JUndefined, shipping_city = JUndefined,
           shipping_province = JUndefined, shipping_country = JUndefined,
           shipping_zip = JUndefined, cart = JString sample_cart,
           cart_line_items = JString (js ''{oops''), cart_total = JUndefined,
           lineItems = Some [\<lparr>variantId = JString fallback_variant, quantity = JNumber (Finite 2)\<rparr>,
                             \<lparr>variantId = JString fallback_variant, quantity = JNumber (Finite 1)\<rparr>]\<rparr>
   \<and> (\<exists>orderData. parseOrderData JSON_parse_sample (JString (js ''hello'')) = Inr orderData)
   \<and> action alphabetical_compare JSON_parse_sample
       \<lparr>unauthenticated_admin = (\<lambda>shop. Inr (Some ())),
        graphql = (\<lambda>admin input. Inr (Some ()) :: js_error + unit option)\<rparr>
       (Some (js ''hush''))
       \<lparr>searchParams =
          [(js ''shop'', js ''q.myshopify.com''),
           (js ''signature'', hmac_sha256_hex (js ''hush'') (js ''shop=q.myshopify.com''))],
        content_type = Some (js ''application/json''),
        json_body = Inr JNull,
        form_body = Inl TypeError,
        text_body = Inr (js ''null'')\<rparr>
     = Inr \<lparr>status = 500, body = Failed TypeError\<rparr>"
proof -
  let ?payload = "JObject [(js ''quote[email]'', JString (js ''ann@example.com'')),
               (js ''quote[cart_line_items]'', JString (js ''{oops'')),
               (js ''quote[Cart]'', JString sample_cart)]"
  let ?api = "\<lparr>unauthenticated_admin = (\<lambda>shop. Inr (Some ())),
        graphql = (\<lambda>admin input. Inr (Some ()) :: js_error + unit option)\<rparr>"
  let ?params = "[(js ''shop'', js ''q.myshopify.com''),
           (js ''signature'', hmac_sha256_hex (js ''hush'') (js ''shop=q.myshopify.com''))]"
  let ?req = "\<lparr>searchParams = ?params,
        content_type = Some (js ''application/json''),
        json_body = Inr JNull,
        form_body = Inl TypeError,
        text_body = Inr (js ''null'')\<rparr>"
  have cli: "property ?payload (js ''quote[cart_line_items]'') = JString (js ''{oops'')"
    and crt: "property ?payload (js ''quote[Cart]'') = JString sample_cart"
    by (simp_all add: js_def)
  have bad: "JSON_parse_sample (JString (js ''{oops'')) = Inl SyntaxError"
    by (simp add: JSON_parse_sample_def js_def)
  note falls_back = parseOrderData_returns_iff [where JSON_parse = JSON_parse_sample and payload = ?payload,
      THEN conjunct2, THEN conjunct2, THEN conjunct2, THEN conjunct2, THEN conjunct2]
  have "parseOrderData JSON_parse_sample ?payload =
      Inr ((initial_order_data ?payload)
            \<lparr>lineItems := Some (free_text_items (property ?payload (js ''quote[Cart]'')))\<rparr>)"
    using falls_back cli crt bad by (simp add: js_def)
  moreover have "free_text_items (JString sample_cart) =
      [\<lparr>variantId = JString fallback_variant, quantity = JNumber (Finite 2)\<rparr>,
       \<lparr>variantId = JString fallback_variant, quantity = JNumber (Finite 1)\<rparr>]"
    by (simp add: free_text_items_def item_lines_def normalizer_defs)
  ultimately have first: "parseOrderData JSON_parse_sample ?payload =
      Inr \<lparr>email = JString (js ''ann@example.com''), full_name = JUndefined,
           shipping_address1 = JUndefined, shipping_city = JUndefined,
           shipping_province = JUndefined, shipping_country = JUndefined,
           shipping_zip = JUndefined, cart = JString sample_cart,
           cart_line_items = JString (js ''{oops''), cart_total = JUndefined,
           lineItems = Some [\<lparr>variantId = JString fallback_variant, quantity = JNumber (Finite 2)\<rparr>,
                             \<lparr>variantId = JString fallback_variant, quantity = JNumber (Finite 1)\<rparr>]\<rparr>"
    by (simp add: crt) (simp add: initial_order_data_def js_def)
  have second: "\<exists>orderData. parseOrderData JSON_parse_sample (JString (js ''hello'')) = Inr orderData"
    by (rule parseOrderData_returns_iff [where JSON_parse = JSON_parse_sample and str = "js ''hello''",
          THEN conjunct2, THEN conjunct2, THEN conjunct2, THEN conjunct2, THEN conjunct1])
  have "sortedParams alphabetical_compare ?params = js ''shop=q.myshopify.com''"
    by (simp add: eval_defs)
  then have verified: "verifyShopifyRequest alphabetical_compare (searchParams ?req) (Some (js ''hush''))"
    by (simp add: verifyShopifyRequest_def get_param_def hmac_sha256_hex_not_empty js_def)
  have payload: "read_payload ?req = Inr JNull"
    by (simp add: read_payload_def js_def)
  have raises: "\<forall>orderData. parseOrderData JSON_parse_sample JNull \<noteq> Inr orderData"
    using parseOrderData_returns_iff [where JSON_parse = JSON_parse_sample and payload = JNull,
        THEN conjunct1] by simp
  have third: "action alphabetical_compare JSON_parse_sample ?api (Some (js ''hush'')) ?req
      = Inr \<lparr>status = 500, body = Failed TypeError\<rparr>"
    using parseOrderData_returns_iff [where JSON_parse = JSON_parse_sample and payload = JNull
        and lc = alphabetical_compare and req = ?req and sharedSecret = "Some (js ''hush'')"
        and api = ?api, THEN conjunct2, THEN conjunct2, THEN conjunct1]
      verified payload raises by blast
  from first second third show ?thesis by blast
qed

text \<open>
  Claim C3 as it is stated, that normalization never raises, fails on the JSON body
  \<^verbatim>\<open>null\<close>, where reading \<^verbatim>\<open>payload["quote[email]"]\<close> throws, and on the JSON body
  \<^verbatim>\<open>{"quote[Cart]": 5}\<close>, where \<^verbatim>\<open>cartText.split\<close> is not a function.
\<close>

theorem parseOrderData_raises:
  "parseOrderData JSON_parse_sample JNull = Inl TypeError
   \<and> parseOrderData JSON_parse_sample (JObject [(js ''quote[Cart]'', JNumber (Finite 5))]) = Inl TypeError"
  by (simp add: normalizer_defs)

text \<open>
  Claim C9, as the code has it. For every payload other than \<^verbatim>\<open>null\<close> and \<^verbatim>\<open>undefined\<close> in
  which both the structured cart-line-items field and the free-text cart description are
  absent, \<open>parseOrderData\<close> returns the fields it read and never assigns \<open>lineItems\<close>: the
  request has no line-item sequence at all.
\<close>

theorem no_cart_fields_no_lineItems:
  assumes "payload \<noteq> JUndefined" and "payload \<noteq> JNull"
    and "property payload (js ''quote[cart_line_items]'') = JUndefined"
    and "property payload (js ''quote[Cart]'') = JUndefined"
  shows "parseOrderData JSON_parse payload = Inr (initial_order_data payload)
    \<and> lineItems (initial_order_data payload) = None"
  using assms by (simp add: parseOrderData_object initial_order_data_simps)

theorem no_cart_fields_no_lineItems_witness:
  "parseOrderData JSON_parse_sample (JObject [(js ''quote[email]'', JString (js ''ann@example.com''))])
   = Inr \<lparr>email = JString (js ''ann@example.com''), full_name = JUndefined,
           shipping_address1 = JUndefined, shipping_city = JUndefined,
           shipping_province = JUndefined, shipping_country = JUndefined,
           shipping_zip = JUndefined, cart = JUndefined,
           cart_line_items = JUndefined, cart_total = JUndefined, lineItems = None\<rparr>"
proof -
  let ?payload = "JObject [(js ''quote[email]'', JString (js ''ann@example.com''))]"
  have "property ?payload (js ''quote[cart_line_items]'') = JUndefined"
    and "property ?payload (js ''quote[Cart]'') = JUndefined"
    by (simp_all add: js_def)
  from no_cart_fields_no_lineItems [OF _ _ this, of JSON_parse_sample] show ?thesis
    by (simp add: initial_order_data_def js_def)
qed

text \<open>
  Claim C9 as it is stated, that the line-item sequence is then empty, fails on the
  payload \<^verbatim>\<open>{}\<close>: \<open>lineItems\<close> is unset, which is not the empty sequence that
  \<open>parseCartText\<close> returns for an empty cart description.
\<close>

theorem lineItems_unset_not_empty:
  "parseOrderData JSON_parse_sample (JObject [])
   = Inr \<lparr>email = JUndefined, full_name = JUndefined,
           shipping_address1 = JUndefined, shipping_city = JUndefined,
           shipping_province = JUndefined, shipping_country = JUndefined,
           shipping_zip = JUndefined, cart = JUndefined,
           cart_line_items = JUndefined, cart_total = JUndefined, lineItems = None\<rparr>
   \<and> parseOrderData JSON_parse_sample (JObject [])
   \<noteq> Inr \<lparr>email = JUndefined, full_name = JUndefined,
           shipping_address1 = JUndefined, shipping_city = JUndefined,
           shipping_province = JUndefined, shipping_country = JUndefined,
           shipping_zip = JUndefined, cart = JUndefined,
           cart_line_items = JUndefined, cart_total = JUndefined, lineItems = Some []\<rparr>"
  by (simp add: normalizer_defs)

text \<open>
  Claim C10, as the code has it. The payload is not \<^verbatim>\<open>null\<close> or \<^verbatim>\<open>undefined\<close>, its
  cart-line-items field is a non-empty string that \<^verbatim>\<open>JSON.parse\<close> accepts, and mapping the
  parsed value throws (by \<open>map_line_items_throws\<close>: it is no array, or an array holding
  \<^verbatim>\<open>null\<close> or \<^verbatim>\<open>undefined\<close>). If \<^verbatim>\<open>quote[Cart]\<close> is falsy or a string, \<open>parseOrderData\<close> returns
  with the line items of the free-text cart description (none when there is no cart
  text), and returns the same as it does under any parser that rejects the string.
\<close>

theorem unmappable_json_falls_back:
  assumes "payload \<noteq> JUndefined" and "payload \<noteq> JNull"
    and "property payload (js ''quote[cart_line_items]'') = JString json" and "json \<noteq> []"
    and "JSON_parse (JString json) = Inr parsed"
    and "map_line_items parsed = Inl e"
    and "\<not> truthy (property payload (js ''quote[Cart]''))
         \<or> (\<exists>s. property payload (js ''quote[Cart]'') = JString s)"
  shows "parseOrderData JSON_parse payload =
      Inr ((initial_order_data payload)
            \<lparr>lineItems := Some (free_text_items (property payload (js ''quote[Cart]'')))\<rparr>)
    \<and> (\<forall>JSON_parse' e'. JSON_parse' (JString json) = Inl e' \<longrightarrow>
          parseOrderData JSON_parse' payload = parseOrderData JSON_parse payload)"
proof -
  let ?cart = "property payload (js ''quote[Cart]'')"
  have free: "parseCartText ?cart = Inr (free_text_items ?cart)"
    using assms(7) by (rule parseCartText_free_text)
  have "structured_items JSON_parse (JString json) = Inl e"
    using assms(5,6) by (simp add: structured_items_def)
  then have here: "parseOrderData JSON_parse payload =
      Inr ((initial_order_data payload)\<lparr>lineItems := Some (free_text_items ?cart)\<rparr>)"
    using assms(1-4) free by (simp add: parseOrderData_object set_lineItems_def)
  have "parseOrderData JSON_parse' payload = parseOrderData JSON_parse payload"
    if "JSON_parse' (JString json) = Inl e'" for JSON_parse' e'
  proof -
    have "structured_items JSON_parse' (JString json) = Inl e'"
      using that by (simp add: structured_items_def)
    then show ?thesis
      using assms(1-4) free here by (simp add: parseOrderData_object set_lineItems_def)
  qed
  with here show ?thesis by blast
qed

theorem unmappable_json_falls_back_witness:
  "parseOrderData JSON_parse_sample
     (JObject [(js ''quote[cart_line_items]'', JString (js ''[null]'')),
               (js ''quote[Cart]'', JString sample_cart)])
   = Inr \<lparr>email = JUndefined, full_name = JUndefined,
           shipping_address1 = JUndefined, shipping_city = JUndefined,
           shipping_province = JUndefined, shipping_country = JUndefined,
           shipping_zip = JUndefined, cart = JString sample_cart,
           cart_line_items = JString (js ''[null]''), cart_total = JUndefined,
           lineItems = Some [\<lparr>variantId = JString fallback_variant, quantity = JNumber (Finite 2)\<rparr>,
                             \<lparr>variantId = JString fallback_variant, quantity = JNumber (Finite 1)\<rparr>]\<rparr>
   \<and> parseOrderData JSON_parse_sample
     (JObject [(js ''quote[cart_line_items]'', JString (js ''null''))])
   = Inr \<lparr>email = JUndefined, full_name = JUndefined,
           shipping_address1 = JUndefined, shipping_city = JUndefined,
           shipping_province = JUndefined, shipping_country = JUndefined,
           shipping_zip = JUndefined, cart = JUndefined,
           cart_line_items = JString (js ''null''), cart_total = JUndefined,
           lineItems = Some []\<rparr>"
proof -
  let ?p1 = "JObject [(js ''quote[cart_line_items]'', JString (js ''[null]'')),
               (js ''quote[Cart]'', JString sample_cart)]"
  let ?p2 = "JObject [(js ''quote[cart_line_items]'', JString (js ''null''))]"
  have items: "free_text_items (JString sample_cart) =
      [\<lparr>variantId = JString fallback_variant, quantity = JNumber (Finite 2)\<rparr>,
       \<lparr>variantId = JString fallback_variant, quantity = JNumber (Finite 1)\<rparr>]"
    by (simp add: free_text_items_def item_lines_def normalizer_defs)
  have "parseOrderData JSON_parse_sample ?p1 =
      Inr ((initial_order_data ?p1)\<lparr>lineItems := Some (free_text_items (property ?p1 (js ''quote[Cart]'')))\<rparr>)"
    using unmappable_json_falls_back [of ?p1 "js ''[null]''" JSON_parse_sample "JArray [JNull]" TypeError]
    by (simp add: JSON_parse_sample_def map_line_items_def get_property_def js_def)
  then have one: "parseOrderData JSON_parse_sample ?p1 =
      Inr ((initial_order_data ?p1)\<lparr>lineItems := Some (free_text_items (JString sample_cart))\<rparr>)"
    by (simp add: js_def)
  have "parseOrderData JSON_parse_sample ?p2 =
      Inr ((initial_order_data ?p2)\<lparr>lineItems := Some (free_text_items (property ?p2 (js ''quote[Cart]'')))\<rparr>)"
    using unmappable_json_falls_back [of ?p2 "js ''null''" JSON_parse_sample JNull TypeError]
    by (simp add: JSON_parse_sample_def map_line_items_def js_def)
  then have two: "parseOrderData JSON_parse_sample ?p2 =
      Inr ((initial_order_data ?p2)\<lparr>lineItems := Some []\<rparr>)"
    by (simp add: js_def free_text_items_def)
  show ?thesis
    unfolding one two items by (simp add: initial_order_data_def js_def)
qed

text \<open>
  Claim C10 as it is stated, that normalization does not fail for every such payload,
  fails where \<^verbatim>\<open>quote[Cart]\<close> is the number 5: \<^verbatim>\<open>JSON.parse("null")\<close> is accepted,
  \<^verbatim>\<open>null.map\<close> throws, and the fallback \<open>parseCartText\<close> throws in the \<^verbatim>\<open>catch\<close> block.
\<close>

theorem fallback_raises_on_non_text_cart:
  "JSON_parse_sample (JString (js ''null'')) = Inr JNull
   \<and> map_line_items JNull = Inl TypeError
   \<and> parseOrderData JSON_parse_sample
        (JObject [(js ''quote[cart_line_items]'', JString (js ''null'')),
                  (js ''quote[Cart]'', JNumber (Finite 5))])
      = Inl TypeError"
  by (simp add: normalizer_defs)


section \<open>The claim about the handler\<close>

text \<open>
  A collaborator that resolves to no client, or to a response that is \<^verbatim>\<open>null\<close> or
  \<^verbatim>\<open>undefined\<close>, makes the \<^verbatim>\<open>try\<close> block throw a \<open>TypeError\<close>.
\<close>

lemma submit_order_nullish:
  "unauthenticated_admin api shop = Inr None
   \<or> (\<exists>admin. unauthenticated_admin api shop = Inr admin
         \<and> createDraftOrder api admin orderData = Inr None)
   \<Longrightarrow> submit_order api shop orderData = Inl TypeError"
  by (auto simp: submit_order_def createDraftOrder_def)

text \<open>
  Claim C4, as the code has it: a submission failure is captured. For every request that
  passes signature verification and whose body was read and normalized, with a non-empty
  \<open>shop\<close> parameter, so that the order-submission call is made: if
  \<^verbatim>\<open>unauthenticated.admin\<close> or \<open>createDraftOrder\<close> throws or rejects with a value \<open>e\<close> other
  than \<^verbatim>\<open>null\<close> and \<^verbatim>\<open>undefined\<close>, the handler answers with status 200 and a body whose
  \<open>draftOrder\<close> is the failure object made of \<open>e\<close>, with \<open>success\<close> false.
\<close>

theorem submission_failure_is_captured:
  assumes "verifyShopifyRequest lc (searchParams req) sharedSecret"
    and "read_payload req = Inr payload"
    and "parseOrderData JSON_parse payload = Inr orderData"
    and "get_param (searchParams req) (js ''shop'') = Some shop" and "shop \<noteq> []"
    and "unauthenticated_admin api shop = Inl e
         \<or> (\<exists>admin. unauthenticated_admin api shop = Inr admin
               \<and> createDraftOrder api admin orderData = Inl e)"
    and "e \<noteq> Thrown JNull" and "e \<noteq> Thrown JUndefined"
  shows "action lc JSON_parse api sharedSecret req =
      Inr \<lparr>status = 200,
           body = Received orderData (DraftOrderFailure \<lparr>caught = e, success = False\<rparr>)\<rparr>"
proof -
  have "submit_order api shop orderData = Inl e"
    using assms(6) by (auto simp: submit_order_def)
  then have "draftOrderResult api (searchParams req) orderData =
      Inr (DraftOrderFailure \<lparr>caught = e, success = False\<rparr>)"
    using assms(4,5,7,8) by (simp add: draftOrderResult_def has_message_def)
  with assms(1-3) show ?thesis
    by (simp add: action_def process_payload_def)
qed

theorem submission_failure_is_captured_witness:
  "action alphabetical_compare JSON_parse_sample
     \<lparr>unauthenticated_admin = (\<lambda>shop. Inr (Some ())),
      graphql = (\<lambda>admin input.
        Inl (Thrown (JObject [(js ''message'', JString (js ''fetch failed''))]))
          :: js_error + unit option)\<rparr>
     (Some (js ''hush''))
     \<lparr>searchParams =
        [(js ''shop'', js ''q.myshopify.com''), (js ''timestamp'', js ''1700000000''),
         (js ''signature'',
          hmac_sha256_hex (js ''hush'') (js ''shop=q.myshopify.comtimestamp=1700000000''))],
      content_type = Some (js ''application/json; charset=utf-8''),
      json_body = Inr (JObject [(js ''quote[email]'', JString (js ''ann@example.com''))]),
      form_body = Inl TypeError,
      text_body = Inr (js ''{\"quote[email]\":\"ann@example.com\"}'')\<rparr>
   = Inr \<lparr>status = 200,
      body = Received
        (initial_order_data (JObject [(js ''quote[email]'', JString (js ''ann@example.com''))]))
        (DraftOrderFailure
           \<lparr>caught = Thrown (JObject [(js ''message'', JString (js ''fetch failed''))]),
            success = False\<rparr>)\<rparr>"
proof -
  let ?params = "[(js ''shop'', js ''q.myshopify.com''), (js ''timestamp'', js ''1700000000''),
         (js ''signature'',
          hmac_sha256_hex (js ''hush'') (js ''shop=q.myshopify.comtimestamp=1700000000''))]"
  let ?req = "\<lparr>searchParams = ?params,
      content_type = Some (js ''application/json; charset=utf-8''),
      json_body = Inr (JObject [(js ''quote[email]'', JString (js ''ann@example.com''))]),
      form_body = Inl TypeError,
      text_body = Inr (js ''{\"quote[email]\":\"ann@example.com\"}'')\<rparr>"
  let ?e = "Thrown (JObject [(js ''message'', JString (js ''fetch failed''))])"
  let ?api = "\<lparr>unauthenticated_admin = (\<lambda>shop. Inr (Some ())),
      graphql = (\<lambda>admin input. Inl ?e :: js_error + unit option)\<rparr>"
  have "sortedParams alphabetical_compare ?params = js ''shop=q.myshopify.comtimestamp=1700000000''"
    by (simp add: eval_defs)
  then have verified: "verifyShopifyRequest alphabetical_compare (searchParams ?req) (Some (js ''hush''))"
    by (simp add: verifyShopifyRequest_def get_param_def hmac_sha256_hex_not_empty js_def)
  have payload: "read_payload ?req = Inr (JObject [(js ''quote[email]'', JString (js ''ann@example.com''))])"
    by (simp add: read_payload_def js_def)
  have parsed: "parseOrderData JSON_parse_sample (JObject [(js ''quote[email]'', JString (js ''ann@example.com''))])
      = Inr (initial_order_data (JObject [(js ''quote[email]'', JString (js ''ann@example.com''))]))"
    by (simp add: parseOrderData_object js_def)
  have shop: "get_param (searchParams ?req) (js ''shop'') = Some (js ''q.myshopify.com'')"
    by (simp add: get_param_def)
  have nonempty: "js ''q.myshopify.com'' \<noteq> []"
    by (simp add: js_def)
  have throws: "unauthenticated_admin ?api (js ''q.myshopify.com'') = Inl ?e
    \<or> (\<exists>admin. unauthenticated_admin ?api (js ''q.myshopify.com'') = Inr admin
        \<and> createDraftOrder ?api admin
            (initial_order_data (JObject [(js ''quote[email]'', JString (js ''ann@example.com''))]))
          = Inl ?e)"
    by (simp add: createDraftOrder_def)
  have "?e \<noteq> Thrown JNull" and "?e \<noteq> Thrown JUndefined"
    by simp_all
  from submission_failure_is_captured [OF verified payload parsed shop nonempty throws this]
  show ?thesis by simp
qed

text \<open>
  Claim C4 as it is stated, for whatever the call throws, fails where the collaborator
  rejects with \<^verbatim>\<open>undefined\<close>: the \<^verbatim>\<open>catch\<close> block reads \<^verbatim>\<open>error.message\<close>, which throws, the
  outer \<^verbatim>\<open>catch\<close> takes the \<open>TypeError\<close>, and the same request is answered with status
  500.
\<close>

theorem rejection_with_undefined_answers_500:
  "action alphabetical_compare JSON_parse_sample
     \<lparr>unauthenticated_admin = (\<lambda>shop. Inr (Some ())),
      graphql = (\<lambda>admin input. Inl (Thrown JUndefined) :: js_error + unit option)\<rparr>
     (Some (js ''hush''))
     \<lparr>searchParams =
        [(js ''shop'', js ''q.myshopify.com''), (js ''timestamp'', js ''1700000000''),
         (js ''signature'',
          hmac_sha256_hex (js ''hush'') (js ''shop=q.myshopify.comtimestamp=1700000000''))],
      content_type = Some (js ''application/json; charset=utf-8''),
      json_body = Inr (JObject [(js ''quote[email]'', JString (js ''ann@example.com''))]),
      form_body = Inl TypeError,
      text_body = Inr (js ''{\"quote[email]\":\"ann@example.com\"}'')\<rparr>
   = Inr \<lparr>status = 500, body = Failed TypeError\<rparr>"
proof -
  let ?params = "[(js ''shop'', js ''q.myshopify.com''), (js ''timestamp'', js ''1700000000''),
         (js ''signature'',
          hmac_sha256_hex (js ''hush'') (js ''shop=q.myshopify.comtimestamp=1700000000''))]"
  let ?payload = "JObject [(js ''quote[email]'', JString (js ''ann@example.com''))]"
  let ?req = "\<lparr>searchParams = ?params,
      content_type = Some (js ''application/json; charset=utf-8''),
      json_body = Inr ?payload,
      form_body = Inl TypeError,
      text_body = Inr (js ''{\"quote[email]\":\"ann@example.com\"}'')\<rparr>"
  let ?api = "\<lparr>unauthenticated_admin = (\<lambda>shop. Inr (Some ())),
      graphql = (\<lambda>admin input. Inl (Thrown JUndefined) :: js_error + unit option)\<rparr>"
  have "sortedParams alphabetical_compare ?params = js ''shop=q.myshopify.comtimestamp=1700000000''"
    by (simp add: eval_defs)
  then have verified: "verifyShopifyRequest alphabetical_compare (searchParams ?req) (Some (js ''hush''))"
    by (simp add: verifyShopifyRequest_def get_param_def hmac_sha256_hex_not_empty js_def)
  have payload: "read_payload ?req = Inr ?payload"
    by (simp add: read_payload_def js_def)
  have parsed: "parseOrderData JSON_parse_sample ?payload = Inr (initial_order_data ?payload)"
    by (simp add: parseOrderData_object js_def)
  have shop: "get_param (searchParams ?req) (js ''shop'') = Some (js ''q.myshopify.com'')"
    by (simp add: get_param_def)
  have nonempty: "js ''q.myshopify.com'' \<noteq> []"
    by (simp add: js_def)
  have "submit_order ?api (js ''q.myshopify.com'') (initial_order_data ?payload) = Inl (Thrown JUndefined)"
    by (simp add: submit_order_def createDraftOrder_def)
  with shop nonempty have "draftOrderResult ?api (searchParams ?req) (initial_order_data ?payload)
      = Inl TypeError"
    by (simp add: draftOrderResult_def has_message_def)
  with payload parsed have "process_payload JSON_parse_sample ?api ?req = Inl TypeError"
    by (simp add: process_payload_def)
  with verified show ?thesis
    by (simp add: action_def has_message_def)
qed


end

